theory Spec2Isabelle
  imports Main "HOL-Library.Log_Nat"
begin

text \<open>
  The quiz of the tutoring application, \<^verbatim>\<open>static/js/app.js\<close>: the functions
  \<^verbatim>\<open>startQuiz\<close>, \<^verbatim>\<open>displayQuestion\<close>, \<^verbatim>\<open>selectOption\<close>, \<^verbatim>\<open>submitQuizAnswer\<close>,
  \<^verbatim>\<open>nextQuizQuestion\<close>, \<^verbatim>\<open>finishQuiz\<close> and \<^verbatim>\<open>saveQuizResults\<close>, as functions on an
  explicit state: the script's global variables, the elements of the page they touch,
  and the requests they send. A function that can throw returns a sum; the clock and
  the server's answer are parameters.
\<close>

section \<open>JavaScript numbers\<close>

text \<open>
  \<^verbatim>\<open>finishQuiz\<close> computes
  \<^verbatim>\<open>Math.round((currentQuiz.score / currentQuiz.questions.length) * 100)\<close>
  on IEEE 754 doubles. A finite double is modelled by the rational it denotes; every
  arithmetic result is rounded to the nearest double, ties to the even significand
  (\<open>round_double\<close>, 53 significant bits). The exponent range of doubles is not modelled:
  the quotients and products below lie between \<open>2\<^sup>-\<^sup>3\<^sup>2\<close> and \<open>2\<^sup>6\<^sup>0\<close>, far from
  underflow and overflow. Division by zero gives \<open>NaN\<close> or \<open>Infinity\<close>, as in JavaScript.
\<close>

datatype js_number = JsNaN | JsInfinity | JsNum rat

definition round_half_even :: "rat \<Rightarrow> int" where
  "round_half_even x =
     (let f = \<lfloor>x\<rfloor>; r = x - of_int f
      in if r < 1 / 2 then f
         else if 1 / 2 < r then f + 1
         else if even f then f else f + 1)"

text \<open>The binary exponent of a positive rational: \<open>2 powi ilog2 q \<le> q < 2 powi (ilog2 q + 1)\<close>.\<close>

definition ilog2 :: "rat \<Rightarrow> int" where
  "ilog2 q =
     (let (a, b) = quotient_of q; d = bitlen a - bitlen b
      in if 2 powi d \<le> q then d else d - 1)"

definition round_double :: "rat \<Rightarrow> rat" where
  "round_double q =
     (if q = 0 then 0
      else let e = ilog2 \<bar>q\<bar> - 52
           in of_int (round_half_even (q / 2 powi e)) * 2 powi e)"

text \<open>\<^verbatim>\<open>a / b\<close> on two non-negative integer-valued numbers (a count and an array length).\<close>

definition js_divide :: "nat \<Rightarrow> nat \<Rightarrow> js_number" where
  "js_divide a b =
     (if b = 0 then (if a = 0 then JsNaN else JsInfinity)
      else JsNum (round_double (of_nat a / of_nat b)))"

text \<open>\<^verbatim>\<open>x * k\<close> for a non-negative \<open>x\<close> and a positive finite constant \<open>k\<close>.\<close>

fun js_times :: "js_number \<Rightarrow> rat \<Rightarrow> js_number" where
  "js_times JsNaN k = JsNaN"
| "js_times JsInfinity k = JsInfinity"
| "js_times (JsNum x) k = JsNum (round_double (x * k))"

text \<open>
  \<^verbatim>\<open>Math.round\<close>: the integer nearest to the argument, a tie going up. It is
  exact on the double it receives.
\<close>

fun Math_round :: "js_number \<Rightarrow> js_number" where
  "Math_round JsNaN = JsNaN"
| "Math_round JsInfinity = JsInfinity"
| "Math_round (JsNum x) = JsNum (of_int \<lfloor>x + 1 / 2\<rfloor>)"

text \<open>\<^verbatim>\<open>x >= k\<close>: false on \<open>NaN\<close>.\<close>

fun js_ge :: "js_number \<Rightarrow> rat \<Rightarrow> bool" where
  "js_ge JsNaN k = False"
| "js_ge JsInfinity k = True"
| "js_ge (JsNum x) k = (k \<le> x)"

section \<open>The page state of \<^verbatim>\<open>static/js/app.js\<close>\<close>

text \<open>
  The globals \<^verbatim>\<open>currentLesson\<close>, \<^verbatim>\<open>currentQuiz\<close> and \<^verbatim>\<open>quizStartTime\<close>, the part of
  the document the quiz functions read and write, and the requests sent to
  \<^verbatim>\<open>/api/quiz/save\<close>. \<open>None\<close> stands for \<^verbatim>\<open>null\<close> or \<^verbatim>\<open>undefined\<close>.
\<close>

record quiz_question =
  question :: string
  options :: "string list"
  correctAnswer :: int

record answer_record =
  selected :: int
  correct :: int
  isCorrect :: bool

text \<open>
  \<^verbatim>\<open>userAnswers\<close> is a JavaScript array written by index, so it can have holes
  (\<open>None\<close>). The counters are JavaScript numbers that only ever hold small non-negative
  integers (they start at 0 and grow by 1 per click).
\<close>

record quiz_state =
  questions :: "quiz_question list"
  currentQuestionIndex :: nat
  userAnswers :: "answer_record option list"
  score :: nat
  selectedAnswer :: "int option"

text \<open>A \<^verbatim>\<open>lesson_id\<close> of 0 is falsy.\<close>

record lesson =
  lesson_id :: int
  topic :: string
  difficulty :: int
  content :: string

text \<open>
  An element of the page, as far as the selectors of the quiz functions can see it:
  whether it has the class \<^verbatim>\<open>option-item\<close>, the integer its \<^verbatim>\<open>data-option-index\<close>
  attribute spells (\<open>None\<close> without the attribute, or when its value is not the decimal
  form of an integer, which no selector built from a number matches), and the classes
  \<^verbatim>\<open>selected\<close>, \<^verbatim>\<open>correct\<close> and \<^verbatim>\<open>incorrect\<close>. \<open>element_html\<close> is the markup it was
  built from.
\<close>

record page_element =
  element_html :: string
  is_option_item :: bool
  data_option_index :: "int option"
  has_selected :: bool
  has_correct :: bool
  has_incorrect :: bool

datatype toast_message = Text string | QuizCompleted js_number

text \<open>
  \<^verbatim>\<open>document.querySelector\<close> and \<^verbatim>\<open>document.querySelectorAll\<close> search the whole
  document in document order, so the page keeps three lists of elements: those before
  the container \<^verbatim>\<open>#questionOptions\<close>, those inside it, and those after it. Other parts
  of the script write lesson, chat and analysis markup into the page, so the outer lists
  are arbitrary. The elements found by \<^verbatim>\<open>getElementById\<close> are taken to be unique.
\<close>

record document =
  loadingText :: string
  loadingOverlay_hidden :: bool
  toastContainer :: "(toast_message \<times> string) list"
  totalQuestions :: nat
  currentQuestion :: nat
  questionText :: string
  elements_before :: "page_element list"
  questionOptions :: "page_element list"
  elements_after :: "page_element list"
  submitAnswerBtn_disabled :: bool
  nextQuestionBtn_hidden :: bool
  nextQuestionBtn_label :: string
  quizResult_hidden :: bool
  quizQuestion_hidden :: bool
  finalScore :: "nat \<times> nat"
  finalPercentage :: js_number
  quizTime :: int
  quizFeedback :: string

text \<open>The JSON body of a \<^verbatim>\<open>POST /api/quiz/save\<close>.\<close>

record save_request =
  save_lesson_id :: int
  save_score :: js_number
  total_questions :: nat
  correct_answers :: nat
  time_taken :: int
  answers :: "answer_record option list"

text \<open>
  \<open>parseHTML\<close> is the browser's HTML parser, as far as it matters here: the elements
  that markup inside a text gives rise to when the text is assigned to \<^verbatim>\<open>innerHTML\<close>,
  in document order (none for plain text). Event handlers in such markup are not
  modelled.
\<close>

record world =
  currentLesson :: "lesson option"
  currentQuiz :: "quiz_state option"
  quizStartTime :: "int option"
  page :: document
  saved :: "save_request list"
  parseHTML :: "string \<Rightarrow> page_element list"

text \<open>
  An uncaught exception leaves the function at once; the state reached so far stays.
  \<open>Inl (e, w)\<close> is the exception \<open>e\<close> thrown in state \<open>w\<close>, \<open>Inr w\<close> a normal return.
\<close>

datatype js_error = TypeError

type_synonym result = "(js_error \<times> world) + world"

fun and_then :: "result \<Rightarrow> (world \<Rightarrow> result) \<Rightarrow> result" where
  "and_then (Inl e) f = Inl e"
| "and_then (Inr w) f = f w"

text \<open>\<^verbatim>\<open>xs[i] = v\<close> on a JavaScript array: writing past the end extends it with holes.\<close>

definition array_set :: "'a option list \<Rightarrow> nat \<Rightarrow> 'a \<Rightarrow> 'a option list" where
  "array_set xs i v =
     (if i < length xs then xs[i := Some v]
      else xs @ replicate (i - length xs) None @ [Some v])"

section \<open>Helpers of the page\<close>

definition showLoading :: "string \<Rightarrow> world \<Rightarrow> world" where
  "showLoading text w =
     w\<lparr>page := (page w)\<lparr>loadingText := text, loadingOverlay_hidden := False\<rparr>\<rparr>"

definition hideLoading :: "world \<Rightarrow> world" where
  "hideLoading w = w\<lparr>page := (page w)\<lparr>loadingOverlay_hidden := True\<rparr>\<rparr>"

text \<open>The toast's removal after five seconds or on a click is not modelled.\<close>

definition showToast :: "toast_message \<Rightarrow> string \<Rightarrow> world \<Rightarrow> world" where
  "showToast message type w =
     w\<lparr>page := (page w)\<lparr>toastContainer := toastContainer (page w) @ [(message, type)]\<rparr>\<rparr>"

section \<open>Quiz functions\<close>

text \<open>
  \<^verbatim>\<open>document.querySelectorAll('.option-item').forEach((opt, index) => ...)\<close>: the
  callback runs on every element of class \<^verbatim>\<open>option-item\<close> of the document, counted in
  document order.
\<close>

fun for_each_item ::
  "(nat \<Rightarrow> page_element \<Rightarrow> page_element) \<Rightarrow> nat \<Rightarrow> page_element list \<Rightarrow> page_element list" where
  "for_each_item f n [] = []"
| "for_each_item f n (el # els) =
     (if is_option_item el then f n el # for_each_item f (n + 1) els
      else el # for_each_item f n els)"

definition count_items :: "page_element list \<Rightarrow> nat" where
  "count_items els = length (filter is_option_item els)"

definition forEach_option_item ::
  "(nat \<Rightarrow> page_element \<Rightarrow> page_element) \<Rightarrow> document \<Rightarrow> document" where
  "forEach_option_item f d =
     (let b = elements_before d; c = questionOptions d; a = elements_after d
      in d\<lparr>elements_before := for_each_item f 0 b,
           questionOptions := for_each_item f (count_items b) c,
           elements_after := for_each_item f (count_items b + count_items c) a\<rparr>)"

text \<open>
  \<^verbatim>\<open>document.querySelector(`[data-option-index="${optionIndex}"]`)\<close> followed by
  \<^verbatim>\<open>classList.add('selected')\<close>: the first element of the document, in document order,
  whose attribute spells the index gets the class; \<open>None\<close> when there is no such
  element (the lookup returns \<^verbatim>\<open>null\<close>).
\<close>

fun add_selected_first :: "int \<Rightarrow> page_element list \<Rightarrow> page_element list option" where
  "add_selected_first k [] = None"
| "add_selected_first k (el # els) =
     (if data_option_index el = Some k then Some (el\<lparr>has_selected := True\<rparr> # els)
      else map_option ((#) el) (add_selected_first k els))"

definition select_element :: "int \<Rightarrow> document \<Rightarrow> document option" where
  "select_element k d =
     (case add_selected_first k (elements_before d) of
        Some b \<Rightarrow> Some (d\<lparr>elements_before := b\<rparr>)
      | None \<Rightarrow>
          (case add_selected_first k (questionOptions d) of
             Some c \<Rightarrow> Some (d\<lparr>questionOptions := c\<rparr>)
           | None \<Rightarrow>
               (case add_selected_first k (elements_after d) of
                  Some a \<Rightarrow> Some (d\<lparr>elements_after := a\<rparr>)
                | None \<Rightarrow> None)))"

text \<open>
  What \<^verbatim>\<open>displayQuestion\<close> puts into \<^verbatim>\<open>#questionOptions\<close>: for each option a
  \<^verbatim>\<open>div\<close> of class \<^verbatim>\<open>option-item\<close> whose \<^verbatim>\<open>data-option-index\<close> is the option's
  position, followed by its descendants. The option text is interpolated into the
  \<^verbatim>\<open>innerHTML\<close> of that \<^verbatim>\<open>div\<close>, so markup in the text becomes elements. The two
  wrappers \<^verbatim>\<open>option-letter\<close> and \<^verbatim>\<open>option-text\<close> match no selector of the script and
  are left out.
\<close>

definition option_elements ::
  "(string \<Rightarrow> page_element list) \<Rightarrow> string list \<Rightarrow> page_element list" where
  "option_elements parse opts =
     concat (map (\<lambda>(index, option).
                    \<lparr>element_html = option, is_option_item = True,
                      data_option_index = Some (int index), has_selected = False,
                      has_correct = False, has_incorrect = False\<rparr> # parse option)
               (enumerate 0 opts))"

text \<open>
  \<^verbatim>\<open>displayQuestion\<close>: with an index past the last question, \<^verbatim>\<open>question\<close> is
  \<^verbatim>\<open>undefined\<close> and reading \<^verbatim>\<open>question.question\<close> throws, after the question number was
  written.
\<close>

definition displayQuestion :: "world \<Rightarrow> result" where
  "displayQuestion w =
     (case currentQuiz w of
        None \<Rightarrow> Inr w
      | Some q \<Rightarrow>
          let i = currentQuestionIndex q;
              w1 = w\<lparr>page := (page w)\<lparr>currentQuestion := i + 1\<rparr>\<rparr>
          in if i < length (questions q) then
               let qn = questions q ! i;
                   d1 = (page w1)
                     \<lparr>questionText := question qn,
                      questionOptions := option_elements (parseHTML w) (options qn),
                      submitAnswerBtn_disabled := True,
                      nextQuestionBtn_hidden := True\<rparr>
               in Inr (w1\<lparr>page :=
                     forEach_option_item
                       (\<lambda>index opt. opt\<lparr>has_selected := False, has_correct := False,
                                          has_incorrect := False\<rparr>) d1\<rparr>)
             else Inl (TypeError, w1))"

text \<open>
  \<^verbatim>\<open>selectOption\<close>: when the lookup of the element returns \<^verbatim>\<open>null\<close>,
  \<^verbatim>\<open>selectedOption.classList\<close> throws, after the class \<^verbatim>\<open>selected\<close> was taken from
  every option item and before anything else is written.
\<close>

definition selectOption :: "int \<Rightarrow> world \<Rightarrow> result" where
  "selectOption optionIndex w =
     (let d1 = forEach_option_item (\<lambda>index opt. opt\<lparr>has_selected := False\<rparr>) (page w);
          w1 = w\<lparr>page := d1\<rparr>
      in case select_element optionIndex d1 of
           None \<Rightarrow> Inl (TypeError, w1)
         | Some d2 \<Rightarrow>
             let w2 = w1\<lparr>page := d2\<lparr>submitAnswerBtn_disabled := False\<rparr>\<rparr>
             in (case currentQuiz w2 of
                   None \<Rightarrow> Inl (TypeError, w2)
                 | Some q \<Rightarrow>
                     Inr (w2\<lparr>currentQuiz := Some (q\<lparr>selectedAnswer := Some optionIndex\<rparr>)\<rparr>)))"

definition mark_option :: "int \<Rightarrow> int \<Rightarrow> nat \<Rightarrow> page_element \<Rightarrow> page_element" where
  "mark_option correctIndex selectedIndex index opt =
     (if int index = correctIndex then opt\<lparr>has_correct := True\<rparr>
      else if int index = selectedIndex \<and> int index \<noteq> correctIndex
           then opt\<lparr>has_incorrect := True\<rparr>
      else opt)"

definition submitQuizAnswer :: "world \<Rightarrow> result" where
  "submitQuizAnswer w =
     (case currentQuiz w of
        None \<Rightarrow> Inl (TypeError, w)
      | Some q \<Rightarrow>
          (case selectedAnswer q of
             None \<Rightarrow> Inr w
           | Some sel \<Rightarrow>
               let i = currentQuestionIndex q
               in if i < length (questions q) then
                    let qn = questions q ! i;
                        isCorrect = (sel = correctAnswer qn);
                        q1 = q\<lparr>userAnswers := array_set (userAnswers q) i
                                  \<lparr>selected = sel, correct = correctAnswer qn,
                                   isCorrect = isCorrect\<rparr>\<rparr>;
                        q2 = (if isCorrect then q1\<lparr>score := score q1 + 1\<rparr> else q1);
                        d1 = (forEach_option_item (mark_option (correctAnswer qn) sel) (page w))
                          \<lparr>submitAnswerBtn_disabled := True\<rparr>;
                        d2 = (if int i < int (length (questions q)) - 1
                              then d1\<lparr>nextQuestionBtn_hidden := False,
                                      nextQuestionBtn_label := ''Next Question''\<rparr>
                              else d1\<lparr>nextQuestionBtn_hidden := False,
                                      nextQuestionBtn_label := ''Finish Quiz''\<rparr>)
                    in Inr (w\<lparr>currentQuiz := Some (q2\<lparr>selectedAnswer := None\<rparr>), page := d2\<rparr>)
                  else Inl (TypeError, w)))"

definition saveQuizResults :: "js_number \<Rightarrow> int \<Rightarrow> quiz_state \<Rightarrow> world \<Rightarrow> world" where
  "saveQuizResults percentage duration q w =
     (case currentLesson w of
        None \<Rightarrow> w
      | Some l \<Rightarrow>
          if lesson_id l = 0 then w
          else w\<lparr>saved := saved w @
                 [\<lparr>save_lesson_id = lesson_id l, save_score = percentage,
                   total_questions = length (questions q), correct_answers = score q,
                   time_taken = duration, answers = userAnswers q\<rparr>]\<rparr>)"

definition feedback_for :: "js_number \<Rightarrow> string" where
  "feedback_for percentage =
     (if js_ge percentage 90 then ''Excellent work!''
      else if js_ge percentage 75 then ''Great job!''
      else if js_ge percentage 60 then ''Good effort!''
      else ''Keep studying!'')"

text \<open>
  \<^verbatim>\<open>finishQuiz\<close>; \<open>now\<close> is what \<^verbatim>\<open>Date.now()\<close> returns. In the subtraction a
  \<^verbatim>\<open>null\<close> start time counts as 0. Millisecond differences are small enough for the
  floored double quotient to be the integer quotient. Only the opening words of each
  feedback text are kept.
\<close>

definition finishQuiz :: "int \<Rightarrow> world \<Rightarrow> result" where
  "finishQuiz now w =
     (case currentQuiz w of
        None \<Rightarrow> Inl (TypeError, w)
      | Some q \<Rightarrow>
          let quizDuration = (now - (case quizStartTime w of None \<Rightarrow> 0 | Some t \<Rightarrow> t)) div 1000;
              percentage = Math_round (js_times (js_divide (score q) (length (questions q))) 100);
              w1 = w\<lparr>page := (page w)
                     \<lparr>quizQuestion_hidden := True,
                      quizResult_hidden := False,
                      finalScore := (score q, length (questions q)),
                      finalPercentage := percentage,
                      quizTime := quizDuration,
                      quizFeedback := feedback_for percentage\<rparr>\<rparr>;
              w2 = saveQuizResults percentage quizDuration q w1
          in Inr (showToast (QuizCompleted percentage)
                    (if js_ge percentage 75 then ''success'' else ''info'') w2))"

definition nextQuizQuestion :: "int \<Rightarrow> world \<Rightarrow> result" where
  "nextQuizQuestion now w =
     (case currentQuiz w of
        None \<Rightarrow> Inl (TypeError, w)
      | Some q \<Rightarrow>
          let q1 = q\<lparr>currentQuestionIndex := currentQuestionIndex q + 1\<rparr>;
              w1 = w\<lparr>currentQuiz := Some q1\<rparr>
          in if currentQuestionIndex q1 < length (questions q1) then displayQuestion w1
             else finishQuiz now w1)"

subsection \<open>Starting a quiz\<close>

text \<open>
  \<^verbatim>\<open>startQuiz\<close> sends \<^verbatim>\<open>POST /api/quiz/generate\<close> and continues in the promise's
  callbacks. The outcome of the request is a parameter: the request fails, or the server
  answers with \<^verbatim>\<open>data\<close>. An exception thrown inside the \<^verbatim>\<open>then\<close> callback is caught by
  the \<^verbatim>\<open>catch\<close> callback of the same chain. \<^verbatim>\<open>data.quiz\<close> carries the questions; the
  other fields of the session are set by the callback, and \<^verbatim>\<open>selectedAnswer\<close> is absent
  from the object received.
\<close>

record generate_response =
  success :: bool
  quiz :: "quiz_question list"
  error :: "string option"

datatype fetch_outcome = Failed | Responded generate_response

definition startQuiz_then :: "generate_response \<Rightarrow> world \<Rightarrow> result" where
  "startQuiz_then data w0 =
     (let w = hideLoading w0
      in if success data then
           let q = \<lparr>questions = quiz data, currentQuestionIndex = 0, userAnswers = [],
                    score = 0, selectedAnswer = None\<rparr>;
               w1 = w\<lparr>currentQuiz := Some q\<rparr>;
               w2 = w1\<lparr>page := (page w1)
                      \<lparr>totalQuestions := length (questions q),
                       quizResult_hidden := True,
                       quizQuestion_hidden := False\<rparr>\<rparr>
           in and_then (displayQuestion w2)
                (\<lambda>w3. Inr (showToast (Text ''Quiz generated successfully!'') ''success'' w3))
         else Inr (showToast
                     (Text (case error data of None \<Rightarrow> ''Failed to generate quiz''
                            | Some e \<Rightarrow> if e = [] then ''Failed to generate quiz'' else e))
                     ''error'' w))"

definition startQuiz_catch :: "world \<Rightarrow> world" where
  "startQuiz_catch w = showToast (Text ''Network error. Please try again.'') ''error'' (hideLoading w)"

definition startQuiz :: "int \<Rightarrow> fetch_outcome \<Rightarrow> world \<Rightarrow> world" where
  "startQuiz now outcome w =
     (if (case currentLesson w of None \<Rightarrow> True | Some l \<Rightarrow> lesson_id l = 0) then
        showToast (Text ''No lesson available for quiz'') ''error'' w
      else
        let w1 = (showLoading ''Generating quiz questions...'' w)\<lparr>quizStartTime := Some now\<rparr>
        in (case outcome of
              Failed \<Rightarrow> startQuiz_catch w1
            | Responded data \<Rightarrow>
                (case startQuiz_then data w1 of
                   Inl (e, w2) \<Rightarrow> startQuiz_catch w2
                 | Inr w2 \<Rightarrow> w2)))"

section \<open>Playing a quiz\<close>

text \<open>
  The clicks of one question: the options clicked in turn (the last click is the
  selection that counts), the submit button, the next button. A click whose handler
  throws ends the run. \<open>now\<close> is the clock when the next button is clicked; only the
  click that finishes the quiz reads it.
\<close>

fun selectOptions :: "int list \<Rightarrow> world \<Rightarrow> result" where
  "selectOptions [] w = Inr w"
| "selectOptions (k # ks) w = and_then (selectOption k w) (selectOptions ks)"

definition answerQuestion :: "int \<Rightarrow> int list \<Rightarrow> world \<Rightarrow> result" where
  "answerQuestion now ks w =
     and_then (and_then (selectOptions ks w) submitQuizAnswer) (nextQuizQuestion now)"

fun playQuiz :: "int \<Rightarrow> int list list \<Rightarrow> world \<Rightarrow> result" where
  "playQuiz now [] w = Inr w"
| "playQuiz now (ks # kss) w = and_then (answerQuestion now ks w) (playQuiz now kss)"

section \<open>Vocabulary of the properties\<close>

text \<open>An index that names one of the options of a question.\<close>

definition valid_option :: "quiz_question \<Rightarrow> int \<Rightarrow> bool" where
  "valid_option qn k = (0 \<le> k \<and> k < int (length (options qn)))"

text \<open>
  What the selectors can tell of an element apart from the three highlight classes.
\<close>

definition element_shape :: "page_element \<Rightarrow> string \<times> bool \<times> int option" where
  "element_shape el = (element_html el, is_option_item el, data_option_index el)"

text \<open>
  The page shows the current question: there is a session, its index names a question, and
  \<^verbatim>\<open>#questionOptions\<close> holds the elements \<^verbatim>\<open>displayQuestion\<close> built for it, whatever
  their highlight. This is the situation in which the user selects, submits and
  advances.
\<close>

definition question_shown :: "world \<Rightarrow> bool" where
  "question_shown w =
     (case currentQuiz w of
        None \<Rightarrow> False
      | Some q \<Rightarrow>
          currentQuestionIndex q < length (questions q) \<and>
          map element_shape (questionOptions (page w)) =
            map element_shape
              (option_elements (parseHTML w) (options (questions q ! currentQuestionIndex q))))"

text \<open>The elements of the whole document, in document order.\<close>

definition all_elements :: "document \<Rightarrow> page_element list" where
  "all_elements d = elements_before d @ questionOptions d @ elements_after d"

text \<open>The record stored for a question when the option \<open>k\<close> is submitted.\<close>

definition recorded :: "quiz_question \<Rightarrow> int \<Rightarrow> answer_record option" where
  "recorded qn k =
     Some \<lparr>selected = k, correct = correctAnswer qn, isCorrect = (k = correctAnswer qn)\<rparr>"

text \<open>The session after the current question was answered with \<open>k\<close> and left.\<close>

definition answered :: "quiz_state \<Rightarrow> int \<Rightarrow> quiz_state" where
  "answered q k =
     (let qn = questions q ! currentQuestionIndex q
      in q\<lparr>currentQuestionIndex := currentQuestionIndex q + 1,
           userAnswers := userAnswers q @ [recorded qn k],
           score := score q + (if k = correctAnswer qn then 1 else 0),
           selectedAnswer := None\<rparr>)"

fun answered_all :: "quiz_state \<Rightarrow> int list \<Rightarrow> quiz_state" where
  "answered_all q [] = q"
| "answered_all q (k # ks) = answered_all (answered q k) ks"

text \<open>
  What \<^verbatim>\<open>finishQuiz\<close> leaves behind when it runs at time \<open>now\<close> from the state \<open>w\<close> on
  the session \<open>q\<close>: the result panel, and the request to \<^verbatim>\<open>/api/quiz/save\<close> when a
  lesson is loaded.
\<close>

definition finished_report :: "int \<Rightarrow> world \<Rightarrow> quiz_state \<Rightarrow> world \<Rightarrow> bool" where
  "finished_report now w q w' =
     (\<not> quizResult_hidden (page w') \<and>
      finalScore (page w') = (score q, length (questions q)) \<and>
      finalPercentage (page w') =
        Math_round (js_times (js_divide (score q) (length (questions q))) 100) \<and>
      saved w' =
        (case currentLesson w of
           None \<Rightarrow> saved w
         | Some l \<Rightarrow>
             if lesson_id l = 0 then saved w
             else saved w @
               [\<lparr>save_lesson_id = lesson_id l,
                 save_score =
                   Math_round (js_times (js_divide (score q) (length (questions q))) 100),
                 total_questions = length (questions q), correct_answers = score q,
                 time_taken =
                   (now - (case quizStartTime w of None \<Rightarrow> 0 | Some t \<Rightarrow> t)) div 1000,
                 answers = userAnswers q\<rparr>]))"

text \<open>The number of stored answer records whose \<^verbatim>\<open>isCorrect\<close> is true.\<close>

definition count_correct :: "answer_record option list \<Rightarrow> nat" where
  "count_correct rs =
     length (filter (\<lambda>r. case r of None \<Rightarrow> False | Some a \<Rightarrow> isCorrect a) rs)"

text \<open>
  The percentage as the specification words it: round-half-up of the exact quotient
  \<open>100 \<cdot> score / totalQuestions\<close>. It is kept apart from the code's computation and
  compared with it below.
\<close>

definition round_half_up :: "rat \<Rightarrow> int" where
  "round_half_up x = \<lfloor>x + 1 / 2\<rfloor>"

definition spec_percentage :: "nat \<Rightarrow> nat \<Rightarrow> int" where
  "spec_percentage s n = round_half_up (100 * of_nat s / of_nat n)"

text \<open>The exact quotient lies halfway between two integers.\<close>

definition exact_tie :: "nat \<Rightarrow> nat \<Rightarrow> bool" where
  "exact_tie s n = ((200 * s + n) mod (2 * n) = 0)"

section \<open>Example states\<close>

definition blank_page :: document where
  "blank_page =
     \<lparr>loadingText = [], loadingOverlay_hidden = True, toastContainer = [],
      totalQuestions = 0, currentQuestion = 0, questionText = [], elements_before = [],
      questionOptions = [], elements_after = [],
      submitAnswerBtn_disabled = True, nextQuestionBtn_hidden = True,
      nextQuestionBtn_label = [], quizResult_hidden = True, quizQuestion_hidden = False,
      finalScore = (0, 0), finalPercentage = JsNum 0, quizTime = 0, quizFeedback = []\<rparr>"

definition example_lesson :: lesson where
  "example_lesson =
     \<lparr>lesson_id = 7, topic = ''Fractions'', difficulty = 2, content = ''Halves and quarters''\<rparr>"

text \<open>
  The parser of the examples: the one piece of markup they use is a \<^verbatim>\<open>b\<close> element
  with \<^verbatim>\<open>data-option-index=5\<close>; every other text of the examples is plain.
\<close>

definition marked_option :: string where
  "marked_option = ''<b data-option-index=5>no</b>''"

definition example_parser :: "string \<Rightarrow> page_element list" where
  "example_parser text =
     (if text = marked_option
      then [\<lparr>element_html = ''<b data-option-index=5>'', is_option_item = False,
              data_option_index = Some 5, has_selected = False, has_correct = False,
              has_incorrect = False\<rparr>]
      else [])"

text \<open>A lesson is loaded and no quiz was started yet.\<close>

definition idle_world :: world where
  "idle_world =
     \<lparr>currentLesson = Some example_lesson, currentQuiz = None, quizStartTime = None,
      page = blank_page, saved = [], parseHTML = example_parser\<rparr>"

definition four_options :: "string list" where
  "four_options = [''A'', ''B'', ''C'', ''D'']"

text \<open>Four questions of four options each; the correct indices are 1, 0, 2, 3.\<close>

definition example_questions :: "quiz_question list" where
  "example_questions =
     [\<lparr>question = ''Q1'', options = four_options, correctAnswer = 1\<rparr>,
      \<lparr>question = ''Q2'', options = four_options, correctAnswer = 0\<rparr>,
      \<lparr>question = ''Q3'', options = four_options, correctAnswer = 2\<rparr>,
      \<lparr>question = ''Q4'', options = four_options, correctAnswer = 3\<rparr>]"

definition example_response :: generate_response where
  "example_response = \<lparr>success = True, quiz = example_questions, error = None\<rparr>"

definition example_started :: world where
  "example_started = startQuiz 1000 (Responded example_response) idle_world"

text \<open>The first question answered (with its correct option) and revealed.\<close>

definition example_revealed :: result where
  "example_revealed = and_then (selectOption 1 example_started) submitQuizAnswer"

text \<open>The whole example quiz played with the selections 1, 0, 0, 3.\<close>

definition example_played :: result where
  "example_played = playQuiz 9000 (map (\<lambda>k. [k]) [1, 0, 0, 3]) example_started"

text \<open>
  One question, answered correctly and revealed; then the same option is clicked again,
  the submit button a second time, and the next button.
\<close>

definition one_question :: "quiz_question list" where
  "one_question = [\<lparr>question = ''Q'', options = [''yes'', ''no''], correctAnswer = 0\<rparr>]"

definition once_submitted :: result where
  "once_submitted =
     and_then
       (selectOption 0
          (startQuiz 1000 (Responded \<lparr>success = True, quiz = one_question, error = None\<rparr>)
             idle_world))
       submitQuizAnswer"

definition reselected :: result where
  "reselected = and_then once_submitted (selectOption 0)"

definition resubmitted :: result where
  "resubmitted = and_then (and_then reselected submitQuizAnswer) (nextQuizQuestion 5000)"

text \<open>The second option of the example quiz is selected.\<close>

definition example_selected :: world where
  "example_selected = projr (selectOption 1 example_started)"

text \<open>A question whose second option text carries the markup of the example parser.\<close>

definition marked_questions :: "quiz_question list" where
  "marked_questions =
     [\<lparr>question = ''Q'', options = [''yes'', marked_option], correctAnswer = 0\<rparr>]"

definition marked_started :: world where
  "marked_started =
     startQuiz 1000 (Responded \<lparr>success = True, quiz = marked_questions, error = None\<rparr>)
       idle_world"

text \<open>Forty questions of two options, the first option correct; 23 answered correctly.\<close>

definition forty_questions :: "quiz_question list" where
  "forty_questions =
     replicate 40 \<lparr>question = ''Q'', options = [''yes'', ''no''], correctAnswer = 0\<rparr>"

definition forty_played :: result where
  "forty_played =
     playQuiz 90000 (replicate 23 [0] @ replicate 17 [1])
       (startQuiz 1000 (Responded \<lparr>success = True, quiz = forty_questions, error = None\<rparr>)
          idle_world)"

section \<open>Rounding to a double\<close>

lemma round_half_even_le:
  assumes "x \<le> of_int n" shows "round_half_even x \<le> n"
proof (cases "\<lfloor>x\<rfloor> = n")
  case True
  then have "of_int n \<le> x" using of_int_floor_le [of x] by simp
  with assms have "x = of_int n" by simp
  then show ?thesis by (simp add: round_half_even_def)
next
  case False
  moreover have "\<lfloor>x\<rfloor> \<le> n" using assms by (simp add: floor_le_iff)
  ultimately have "\<lfloor>x\<rfloor> + 1 \<le> n" by simp
  then show ?thesis
    unfolding round_half_even_def Let_def by (simp split: if_splits)
qed

lemma round_half_even_ge:
  assumes "of_int n \<le> x" shows "n \<le> round_half_even x"
proof -
  have "n \<le> \<lfloor>x\<rfloor>" using assms by (simp add: le_floor_iff)
  then show ?thesis
    unfolding round_half_even_def Let_def by (auto split: if_splits)
qed

lemma bitlen_powi_bounds:
  assumes "0 < a"
  shows "(2::rat) powi (bitlen a - 1) \<le> of_int a" and "of_int a < (2::rat) powi bitlen a"
proof -
  have "bitlen a \<noteq> 0" using assms by (simp add: bitlen_eq_zero_iff)
  with bitlen_nonneg [of a] have pos: "0 < bitlen a" by simp
  from bitlen_bounds [OF assms]
  have lo: "2 ^ nat (bitlen a - 1) \<le> a" and hi: "a < 2 ^ nat (bitlen a)" by simp_all
  have "(2::rat) powi (bitlen a - 1) = 2 ^ nat (bitlen a - 1)"
    using pos by (simp add: power_int_def)
  also have "\<dots> = of_int (2 ^ nat (bitlen a - 1))" by simp
  also have "\<dots> \<le> of_int a" using lo by (simp only: of_int_le_iff)
  finally show "(2::rat) powi (bitlen a - 1) \<le> of_int a" .
  have "(of_int a :: rat) < of_int (2 ^ nat (bitlen a))" using hi by (simp only: of_int_less_iff)
  also have "\<dots> = 2 ^ nat (bitlen a)" by simp
  also have "\<dots> = 2 powi bitlen a" using pos by (simp add: power_int_def)
  finally show "of_int a < (2::rat) powi bitlen a" .
qed

lemma ilog2_bounds:
  assumes "0 < q"
  shows "2 powi ilog2 q \<le> q" and "q < 2 powi (ilog2 q + 1)"
proof -
  obtain a b where ab: "quotient_of q = (a, b)" by (cases "quotient_of q")
  then have q: "q = of_int a / of_int b" and b: "0 < b"
    by (simp_all add: quotient_of_div quotient_of_denom_pos)
  with assms have a: "0 < a" by (simp add: zero_less_divide_iff)
  define d where "d = bitlen a - bitlen b"
  have il: "ilog2 q = (if 2 powi d \<le> q then d else d - 1)"
    by (simp add: ilog2_def ab d_def)
  have bpos: "(0::rat) < of_int b" using b by simp
  have "q < 2 powi bitlen a / of_int b"
    unfolding q using bitlen_powi_bounds(2) [OF a] bpos by (simp add: divide_strict_right_mono)
  also have "\<dots> \<le> 2 powi bitlen a / 2 powi (bitlen b - 1)"
    using bitlen_powi_bounds(1) [OF b] bpos by (intro divide_left_mono mult_pos_pos) simp_all
  also have "\<dots> = 2 powi (d + 1)"
    by (simp add: d_def power_int_diff [symmetric] algebra_simps)
  finally have hi: "q < 2 powi (d + 1)" .
  have "(2::rat) powi (d - 1) = 2 powi (bitlen a - 1) / 2 powi bitlen b"
    by (simp add: d_def power_int_diff [symmetric] algebra_simps)
  also have "\<dots> \<le> of_int a / 2 powi bitlen b"
    using bitlen_powi_bounds(1) [OF a] by (simp add: divide_right_mono)
  also have "\<dots> \<le> of_int a / of_int b"
    using bitlen_powi_bounds(2) [OF b] a bpos by (intro divide_left_mono) simp_all
  finally have lo: "2 powi (d - 1) \<le> q" by (simp add: q)
  show "2 powi ilog2 q \<le> q" using lo by (simp add: il)
  show "q < 2 powi (ilog2 q + 1)" using hi by (simp add: il not_le)
qed


lemma round_double_pos:
  assumes "0 < q" shows "0 < round_double q"
proof -
  define e where "e = ilog2 q - 52"
  have p2: "(0::rat) < 2 powi e" by (simp add: zero_less_power_int)
  have "(2::rat) powi ilog2 q = 2 ^ 52 * 2 powi e"
    by (simp add: e_def power_int_diff)
  with ilog2_bounds(1) [OF assms] have "of_int (2 ^ 52) \<le> q / 2 powi e"
    using p2 by (simp add: pos_le_divide_eq)
  then have "2 ^ 52 \<le> round_half_even (q / 2 powi e)" by (rule round_half_even_ge)
  then have "0 < round_half_even (q / 2 powi e)" by simp
  then have "(0::rat) < of_int (round_half_even (q / 2 powi e)) * 2 powi e"
    using p2 by (simp add: zero_less_mult_iff)
  then show ?thesis using assms by (simp add: round_double_def e_def Let_def)
qed

lemma round_double_nonneg: "0 \<le> q \<Longrightarrow> 0 \<le> round_double q"
  using round_double_pos [of q] by (cases "q = 0") (simp_all add: round_double_def)

lemma round_double_le:
  assumes q: "0 < q" and le: "q \<le> of_int c * 2 powi m"
    and c: "2 ^ 52 \<le> c" "c < 2 ^ 53"
  shows "round_double q \<le> of_int c * 2 powi m"
proof -
  define e where "e = ilog2 q - 52"
  have p2: "(0::rat) < 2 powi e" by (simp add: zero_less_power_int)
  have rd: "round_double q = of_int (round_half_even (q / 2 powi e)) * 2 powi e"
    using q by (simp add: round_double_def e_def Let_def)
  have "(2::rat) powi (e + 52) \<le> q" using ilog2_bounds(1) [OF q] by (simp add: e_def)
  also note le
  also have "of_int c * (2::rat) powi m < 2 ^ 53 * 2 powi m"
  proof -
    have "(of_int c :: rat) < of_int (2 ^ 53)" using c(2) by (simp only: of_int_less_iff)
    then show ?thesis by (simp add: zero_less_power_int)
  qed
  also have "\<dots> = 2 powi (m + 53)" by (simp add: power_int_add)
  finally have lt: "(2::rat) powi (e + 52) < 2 powi (m + 53)" .
  have "e + 52 < m + 53"
  proof (rule ccontr)
    assume "\<not> e + 52 < m + 53"
    then have "m + 53 \<le> e + 52" by simp
    then have "(2::rat) powi (m + 53) \<le> 2 powi (e + 52)" by (rule power_int_increasing) simp
    with lt show False by simp
  qed
  then consider "e = m" | "e + 1 \<le> m" by linarith
  then show ?thesis
  proof cases
    case 1
    have "q / 2 powi e \<le> of_int c" using le p2 by (simp add: 1 pos_divide_le_eq)
    then have "round_half_even (q / 2 powi e) \<le> c" by (rule round_half_even_le)
    then have "(of_int (round_half_even (q / 2 powi e)) :: rat) \<le> of_int c"
      by (simp only: of_int_le_iff)
    then show ?thesis using p2 by (simp add: rd 1)
  next
    case 2
    have "ilog2 q + 1 = e + 53" by (simp add: e_def)
    with ilog2_bounds(2) [OF q] have "q < 2 powi (e + 53)" by (simp only:)
    also have "\<dots> = 2 ^ 53 * 2 powi e" by (simp add: power_int_add)
    finally have "q / 2 powi e \<le> of_int (2 ^ 53)" using p2 by (simp add: pos_divide_le_eq)
    then have "round_half_even (q / 2 powi e) \<le> 2 ^ 53" by (rule round_half_even_le)
    then have "(of_int (round_half_even (q / 2 powi e)) :: rat) \<le> of_int (2 ^ 53)"
      by (simp only: of_int_le_iff)
    then have "round_double q \<le> 2 ^ 53 * 2 powi e" using p2 by (simp add: rd)
    also have "\<dots> = 2 ^ 52 * 2 powi (e + 1)" by (simp add: power_int_add)
    also have "\<dots> \<le> 2 ^ 52 * 2 powi m"
      using 2 by (simp add: power_int_increasing)
    also have "\<dots> \<le> of_int c * 2 powi m"
    proof -
      have "(of_int (2 ^ 52) :: rat) \<le> of_int c" using c(1) by (simp only: of_int_le_iff)
      then show ?thesis by (simp add: zero_less_power_int)
    qed
    finally show ?thesis .
  qed
qed

lemma round_double_le_1:
  assumes "0 \<le> q" "q \<le> 1" shows "round_double q \<le> 1"
proof (cases "q = 0")
  case True then show ?thesis by (simp add: round_double_def)
next
  case False
  with assms have "0 < q" by simp
  moreover have "q \<le> of_int (2 ^ 52) * 2 powi (- 52)"
    using assms(2) by (simp add: power_int_minus)
  ultimately have "round_double q \<le> of_int (2 ^ 52) * 2 powi (- 52)"
    by (rule round_double_le) simp_all
  then show ?thesis by (simp add: power_int_minus)
qed

lemma round_double_le_100:
  assumes "0 \<le> q" "q \<le> 100" shows "round_double q \<le> 100"
proof (cases "q = 0")
  case True then show ?thesis by (simp add: round_double_def)
next
  case False
  with assms have "0 < q" by simp
  moreover have "q \<le> of_int (100 * 2 ^ 46) * 2 powi (- 46)"
    using assms(2) by (simp add: power_int_minus)
  ultimately have "round_double q \<le> of_int (100 * 2 ^ 46) * 2 powi (- 46)"
    by (rule round_double_le) simp_all
  then show ?thesis by (simp add: power_int_minus)
qed

lemma round_half_even_err: "\<bar>of_int (round_half_even x) - x\<bar> \<le> 1 / 2"
proof -
  have "of_int \<lfloor>x\<rfloor> \<le> x" "x < of_int \<lfloor>x\<rfloor> + 1" by linarith+
  then show ?thesis
    unfolding round_half_even_def Let_def by (auto split: if_splits)
qed

lemma round_double_err:
  assumes "0 < q"
  shows "\<bar>round_double q - q\<bar> \<le> q / 2 ^ 53"
proof -
  define e where "e = ilog2 q - 52"
  define t where "t = q / 2 powi e"
  have p2: "(0::rat) < 2 powi e" by (simp add: zero_less_power_int)
  have rd: "round_double q = of_int (round_half_even t) * 2 powi e"
    using assms by (simp add: round_double_def e_def t_def Let_def)
  have qt: "q = t * 2 powi e" using p2 by (simp add: t_def)
  have "round_double q - q = (of_int (round_half_even t) - t) * 2 powi e"
    by (subst (2) qt) (simp add: rd algebra_simps)
  then have "\<bar>round_double q - q\<bar> = \<bar>of_int (round_half_even t) - t\<bar> * 2 powi e"
    using p2 by (simp add: abs_mult)
  also have "\<dots> \<le> 1 / 2 * 2 powi e"
    using round_half_even_err [of t] p2 by (intro mult_right_mono) simp_all
  also have "\<dots> = 2 powi ilog2 q / 2 ^ 53"
    by (simp add: e_def power_int_diff)
  also have "\<dots> \<le> q / 2 ^ 53"
    using ilog2_bounds(1) [OF assms] by (simp add: divide_right_mono)
  finally show ?thesis .
qed

lemma product_close:
  assumes "s \<le> n" "1 \<le> n"
  shows "\<bar>round_double (round_double (of_nat s / of_nat n) * 100) - 100 * of_nat s / of_nat n\<bar>
           \<le> 200 / 2 ^ 53"
proof (cases "s = 0")
  case True
  then show ?thesis by (simp add: round_double_def)
next
  case False
  define X :: rat where "X = of_nat s / of_nat n"
  define x1 where "x1 = round_double X"
  define y where "y = round_double (x1 * 100)"
  from False assms have X: "0 < X" "X \<le> 1" by (simp_all add: X_def)
  have x1: "0 < x1" "x1 \<le> 1"
    using X round_double_pos [of X] round_double_le_1 [of X] by (simp_all add: x1_def)
  have e1: "\<bar>x1 - X\<bar> \<le> X / 2 ^ 53" unfolding x1_def by (rule round_double_err [OF X(1)])
  have "0 < x1 * 100" using x1 by simp
  from round_double_err [OF this] have e2: "\<bar>y - x1 * 100\<bar> \<le> x1 * 100 / 2 ^ 53"
    by (simp add: y_def)
  have "X / 2 ^ 53 \<le> 1 / 2 ^ 53" using X(2) by (simp add: divide_right_mono)
  with e1 have e1': "\<bar>x1 - X\<bar> \<le> 1 / 2 ^ 53" by linarith
  have "x1 * 100 / 2 ^ 53 \<le> 100 / 2 ^ 53" using x1(2) by (simp add: divide_right_mono)
  with e2 have e2': "\<bar>y - x1 * 100\<bar> \<le> 100 / 2 ^ 53" by linarith
  have "\<bar>y - 100 * X\<bar> = \<bar>(y - x1 * 100) + 100 * (x1 - X)\<bar>" by (simp add: algebra_simps)
  also have "\<dots> \<le> \<bar>y - x1 * 100\<bar> + \<bar>100 * (x1 - X)\<bar>" by (rule abs_triangle_ineq)
  also have "\<dots> = \<bar>y - x1 * 100\<bar> + 100 * \<bar>x1 - X\<bar>" by (simp only: abs_mult)
  also have "\<dots> \<le> 100 / 2 ^ 53 + 100 * (1 / 2 ^ 53)"
    using e1' e2' by (intro add_mono mult_left_mono) simp_all
  finally have "\<bar>y - 100 * X\<bar> \<le> 200 / 2 ^ 53" by simp
  then show ?thesis by (simp add: y_def x1_def X_def)
qed


lemma floor_near:
  fixes y Z d :: rat and P :: int
  assumes "\<bar>y - Z\<bar> \<le> d" "of_int P + d < Z" "Z + d < of_int P + 1" 
  shows "\<lfloor>y\<rfloor> = P"
proof (rule floor_unique)
  show "of_int P \<le> y" using assms by linarith
  show "y < of_int P + 1" using assms by linarith
qed

lemma floor_at_tie:
  fixes y d :: rat and P :: int
  assumes "\<bar>y - of_int P\<bar> \<le> d" "d < 1"
  shows "\<lfloor>y\<rfloor> = P \<or> \<lfloor>y\<rfloor> = P - 1"
proof (cases "of_int P \<le> y")
  case True
  have "\<lfloor>y\<rfloor> = P" by (rule floor_unique) (use True assms in linarith)+
  then show ?thesis ..
next
  case False
  have "\<lfloor>y\<rfloor> = P - 1" by (rule floor_unique) (use False assms in \<open>simp; linarith\<close>)+
  then show ?thesis ..
qed

lemma exact_quotient:
  assumes "1 \<le> n"
  shows "100 * of_nat s / of_nat n + 1 / 2 =
           (of_int (int ((200 * s + n) div (2 * n))) :: rat) +
           of_nat ((200 * s + n) mod (2 * n)) / of_nat (2 * n)"
proof -
  define m where "m = 200 * s + n"
  define d where "d = 2 * n"
  have d: "0 < d" using assms by (simp add: d_def)
  have "(of_nat m :: rat) = of_nat (m div d * d + m mod d)" by simp
  also have "\<dots> = of_nat (m div d) * of_nat d + of_nat (m mod d)" by (simp only: of_nat_add of_nat_mult)
  finally have "(of_nat m :: rat) / of_nat d = of_nat (m div d) + of_nat (m mod d) / of_nat d"
    using d by (simp add: field_simps)
  moreover have "100 * of_nat s / of_nat n + 1 / 2 = (of_nat m :: rat) / of_nat d"
    using assms by (simp add: m_def d_def field_simps)
  ultimately show ?thesis by (simp add: m_def d_def)
qed


lemma percentage_exact:
  assumes sn: "s \<le> n" and n1: "1 \<le> n" and n32: "n < 2 ^ 32"
  defines "p \<equiv> \<lfloor>round_double (round_double (of_nat s / of_nat n) * 100) + 1 / 2\<rfloor>"
  shows "if exact_tie s n then p = spec_percentage s n \<or> p = spec_percentage s n - 1
         else p = spec_percentage s n"
proof -
  define y where "y = round_double (round_double (of_nat s / of_nat n) * 100) + 1 / 2"
  define Z :: rat where "Z = 100 * of_nat s / of_nat n + 1 / 2"
  define m where "m = 200 * s + n"
  define d where "d = 2 * n"
  define P where "P = int (m div d)"
  define \<delta> :: rat where "\<delta> = 200 / 2 ^ 53"
  have p: "p = \<lfloor>y\<rfloor>" by (simp add: p_def y_def)
  have close: "\<bar>y - Z\<bar> \<le> \<delta>"
    using product_close [OF sn n1] by (simp add: y_def Z_def \<delta>_def)
  have Z: "Z = of_int P + of_nat (m mod d) / of_nat d"
    unfolding Z_def P_def m_def d_def by (rule exact_quotient [OF n1])
  have dpos: "(0::rat) < of_nat d" using n1 by (simp add: d_def)
  have "m mod d < d" using n1 by (simp add: d_def)
  then have frac1: "(of_nat (m mod d) :: rat) / of_nat d < 1" using dpos by simp
  have frac0: "(0::rat) \<le> of_nat (m mod d) / of_nat d" by simp
  have "\<lfloor>Z\<rfloor> = P" by (rule floor_unique) (use Z frac0 frac1 in linarith)+
  then have spec: "spec_percentage s n = P"
    by (simp add: spec_percentage_def round_half_up_def Z_def)
  have small: "\<delta> < 1 / of_nat d"
  proof -
    have "d < 2 ^ 33" using n32 by (simp add: d_def)
    then have "(of_nat d :: rat) < of_nat (2 ^ 33)" by (simp only: of_nat_less_iff)
    then have "(of_nat d :: rat) * 200 < 2 ^ 33 * 200" by simp
    also have "\<dots> < (2 ^ 53 :: rat)" by simp
    finally show ?thesis using dpos by (simp add: \<delta>_def field_simps)
  qed
  show ?thesis
  proof (cases "exact_tie s n")
    case True
    then have "m mod d = 0" by (simp add: exact_tie_def m_def d_def)
    with Z have "Z = of_int P" by simp
    with close have "\<bar>y - of_int P\<bar> \<le> \<delta>" by simp
    moreover have "\<delta> < 1" by (simp add: \<delta>_def)
    ultimately have "\<lfloor>y\<rfloor> = P \<or> \<lfloor>y\<rfloor> = P - 1" by (rule floor_at_tie)
    with True show ?thesis by (simp add: p spec)
  next
    case False
    then have r: "1 \<le> m mod d" by (simp add: exact_tie_def m_def d_def)
    from \<open>m mod d < d\<close> have r': "m mod d + 1 \<le> d" by simp
    have lo: "1 / of_nat d \<le> (of_nat (m mod d) :: rat) / of_nat d"
      using r dpos by (simp add: divide_right_mono)
    have "(of_nat (m mod d) :: rat) + 1 \<le> of_nat d"
      using r' by (metis of_nat_1 of_nat_add of_nat_le_iff)
    then have hi: "(of_nat (m mod d) :: rat) / of_nat d \<le> 1 - 1 / of_nat d"
      using dpos by (simp add: field_simps)
    have "\<lfloor>y\<rfloor> = P"
    proof (rule floor_near [OF close])
      show "of_int P + \<delta> < Z" using Z lo small by linarith
      show "Z + \<delta> < of_int P + 1" using Z hi small by linarith
    qed
    with False show ?thesis by (simp add: p spec)
  qed
qed

lemma percentage_bounds:
  assumes "s \<le> n" "1 \<le> n"
  defines "p \<equiv> \<lfloor>round_double (round_double (of_nat s / of_nat n) * 100) + 1 / 2\<rfloor>"
  shows "0 \<le> p" and "p \<le> 100"
proof -
  define X :: rat where "X = of_nat s / of_nat n"
  from assms(1,2) have X: "0 \<le> X" "X \<le> 1" by (simp_all add: X_def)
  have x1: "0 \<le> round_double X" "round_double X \<le> 1"
    using X by (simp_all add: round_double_nonneg round_double_le_1)
  then have "0 \<le> round_double X * 100" "round_double X * 100 \<le> 100" by simp_all
  then have y: "0 \<le> round_double (round_double X * 100)"
      "round_double (round_double X * 100) \<le> 100"
    by (simp_all add: round_double_nonneg round_double_le_100)
  have p: "p = \<lfloor>round_double (round_double X * 100) + 1 / 2\<rfloor>" by (simp add: p_def X_def)
  show "0 \<le> p" unfolding p using y(1) by (simp add: zero_le_floor)
  have "round_double (round_double X * 100) + 1 / 2 < of_int 101" using y(2) by simp
  then have "p < 101" unfolding p by (simp only: floor_less_iff)
  then show "p \<le> 100" by simp
qed

lemma round_double_1: "round_double 1 = 1"
  by code_simp

lemma round_double_100: "round_double 100 = 100"
  by code_simp

lemma Math_round_100: "Math_round (JsNum 100) = JsNum 100"
proof -
  have fl: "\<lfloor>(100::rat) + 1 / 2\<rfloor> = 100" by (rule floor_unique) simp_all
  have "Math_round (JsNum 100) = JsNum (of_int \<lfloor>(100::rat) + 1 / 2\<rfloor>)"
    by (simp only: Math_round.simps)
  also have "\<dots> = JsNum 100" by (simp only: fl) simp
  finally show ?thesis .
qed

lemma full_score_percentage:
  assumes "1 \<le> n"
  shows "Math_round (js_times (js_divide n n) 100) = JsNum 100"
proof -
  have "(of_nat n :: rat) / of_nat n = 1" using assms by simp
  then have "js_divide n n = JsNum 1" using assms by (simp add: js_divide_def round_double_1)
  then have "js_times (js_divide n n) 100 = JsNum 100" by (simp add: round_double_100)
  then show ?thesis by (simp only: Math_round_100)
qed

section \<open>One click at a time\<close>

lemma shape_for_each_item:
  assumes "\<And>n el. element_shape (f n el) = element_shape el"
  shows "map element_shape (for_each_item f n els) = map element_shape els"
  by (induction els arbitrary: n) (simp_all add: assms)

lemma shape_add_selected_first:
  "add_selected_first k els = Some els' \<Longrightarrow> map element_shape els' = map element_shape els"
  by (induction els arbitrary: els') (auto simp: element_shape_def split: if_splits)

lemma add_selected_first_None:
  "add_selected_first k els = None \<longleftrightarrow> (\<forall>el\<in>set els. data_option_index el \<noteq> Some k)"
  by (induction els) auto

lemma add_selected_first_SomeD:
  "add_selected_first k els = Some els' \<Longrightarrow> \<exists>el\<in>set els. data_option_index el = Some k"
  using add_selected_first_None [of k els] by auto

lemma indices_of_shapes:
  assumes "map element_shape els = map element_shape els'"
  shows "(\<forall>el\<in>set els. data_option_index el \<noteq> Some k) \<longleftrightarrow>
         (\<forall>el\<in>set els'. data_option_index el \<noteq> Some k)"
proof -
  have eq: "(snd \<circ> snd) \<circ> element_shape = data_option_index"
    by (simp add: fun_eq_iff element_shape_def)
  from assms have "map (snd \<circ> snd) (map element_shape els) =
                   map (snd \<circ> snd) (map element_shape els')"
    by (rule arg_cong)
  then have "map data_option_index els = map data_option_index els'"
    by (simp only: map_map eq)
  then have "set (map data_option_index els) = set (map data_option_index els')"
    by (rule arg_cong)
  then have im: "data_option_index ` set els = data_option_index ` set els'"
    by (simp only: set_map)
  have "(\<forall>el\<in>set xs. data_option_index el \<noteq> Some k) \<longleftrightarrow>
        Some k \<notin> data_option_index ` set xs" for xs :: "page_element list"
    by (force simp: image_iff)
  with im show ?thesis by simp
qed

lemma shape_clear_selected:
  "element_shape (opt\<lparr>has_selected := False\<rparr>) = element_shape opt"
  "element_shape (opt\<lparr>has_selected := False, has_correct := False, has_incorrect := False\<rparr>) =
     element_shape opt"
  by (simp_all add: element_shape_def)

lemma shape_mark_option: "element_shape (mark_option c s n opt) = element_shape opt"
  by (simp add: mark_option_def element_shape_def)

lemma option_elements_has_index:
  assumes "i < length opts"
  shows "\<exists>el\<in>set (option_elements parse opts). data_option_index el = Some (int i)"
proof -
  from assms have "(i, opts ! i) \<in> set (enumerate 0 opts)"
    by (simp add: in_set_enumerate_eq)
  then show ?thesis
    unfolding option_elements_def by (auto intro!: bexI [of _ "(i, opts ! i)"])
qed

lemma option_elements_cases:
  assumes "el \<in> set (option_elements parse opts)"
  shows "(\<exists>i<length opts. data_option_index el = Some (int i)) \<or>
         (\<exists>option\<in>set opts. el \<in> set (parse option))"
proof -
  from assms obtain i option where io: "(i, option) \<in> set (enumerate 0 opts)"
    and el: "el = \<lparr>element_html = option, is_option_item = True,
                  data_option_index = Some (int i), has_selected = False,
                  has_correct = False, has_incorrect = False\<rparr> \<or> el \<in> set (parse option)"
    unfolding option_elements_def by auto
  from io have "i < length opts" "option \<in> set opts"
    by (auto simp: in_set_enumerate_eq)
  with el show ?thesis by auto
qed

lemma select_element_shape:
  "select_element k d = Some d' \<Longrightarrow>
   map element_shape (questionOptions d') = map element_shape (questionOptions d)"
  by (auto simp: select_element_def shape_add_selected_first split: option.splits)

lemma select_element_None:
  "select_element k d = None \<longleftrightarrow> (\<forall>el\<in>set (all_elements d). data_option_index el \<noteq> Some k)"
  by (auto simp: select_element_def all_elements_def add_selected_first_None
      dest!: add_selected_first_SomeD split: option.splits)

text \<open>Taking the highlight from the option items changes no attribute.\<close>

lemma indices_after_clearing:
  "(\<forall>el\<in>set (all_elements
       (forEach_option_item (\<lambda>index opt. opt\<lparr>has_selected := False\<rparr>) d)).
      data_option_index el \<noteq> Some k) \<longleftrightarrow>
   (\<forall>el\<in>set (all_elements d). data_option_index el \<noteq> Some k)"
proof -
  let ?f = "\<lambda>(index::nat) opt. opt\<lparr>has_selected := False\<rparr>"
  have sh: "map element_shape (for_each_item ?f n els) = map element_shape els" for n els
    by (rule shape_for_each_item) (simp add: shape_clear_selected)
  have "map element_shape (all_elements (forEach_option_item ?f d)) =
        map element_shape (all_elements d)"
    by (simp add: all_elements_def forEach_option_item_def Let_def sh)
  then show ?thesis by (rule indices_of_shapes)
qed

lemma selectOption_valid:
  assumes "question_shown w" "currentQuiz w = Some q"
    and "valid_option (questions q ! currentQuestionIndex q) k"
  shows "\<exists>w'. selectOption k w = Inr w' \<and>
           currentQuiz w' = Some (q\<lparr>selectedAnswer := Some k\<rparr>) \<and>
           question_shown w' \<and>
           currentLesson w' = currentLesson w \<and> saved w' = saved w \<and>
           quizStartTime w' = quizStartTime w"
proof -
  let ?f = "\<lambda>(index::nat) opt. opt\<lparr>has_selected := False\<rparr>"
  let ?d1 = "forEach_option_item ?f (page w)"
  let ?qn = "questions q ! currentQuestionIndex q"
  from assms(1,2) have idx: "currentQuestionIndex q < length (questions q)"
    and built: "map element_shape (questionOptions (page w)) =
                  map element_shape (option_elements (parseHTML w) (options ?qn))"
    by (simp_all add: question_shown_def)
  have sh1: "map element_shape (questionOptions ?d1) =
               map element_shape (questionOptions (page w))"
    by (simp add: forEach_option_item_def Let_def shape_for_each_item shape_clear_selected)
  from assms(3) have "nat k < length (options ?qn)" and k: "int (nat k) = k"
    by (auto simp: valid_option_def nat_less_iff)
  from option_elements_has_index [OF this(1), of "parseHTML w"] k
  have "\<not> (\<forall>el\<in>set (option_elements (parseHTML w) (options ?qn)).
             data_option_index el \<noteq> Some k)"
    by auto
  with indices_of_shapes [OF built, of k]
  have "\<not> (\<forall>el\<in>set (questionOptions (page w)). data_option_index el \<noteq> Some k)" by simp
  then have "\<not> (\<forall>el\<in>set (all_elements (page w)). data_option_index el \<noteq> Some k)"
    by (auto simp: all_elements_def)
  then have "select_element k ?d1 \<noteq> None"
    by (simp add: select_element_None indices_after_clearing)
  then obtain d2 where d2: "select_element k ?d1 = Some d2" by auto
  from select_element_shape [OF d2] sh1 built
  have "map element_shape (questionOptions d2) =
          map element_shape (option_elements (parseHTML w) (options ?qn))"
    by simp
  with assms(2) idx d2 show ?thesis
    by (simp add: selectOption_def Let_def question_shown_def)
qed

lemma selectOptions_valid:
  assumes "question_shown w" "currentQuiz w = Some q"
    and "\<forall>k\<in>set ks. valid_option (questions q ! currentQuestionIndex q) k"
  shows "\<exists>w'. selectOptions ks w = Inr w' \<and>
           currentQuiz w' =
             Some (q\<lparr>selectedAnswer := (if ks = [] then selectedAnswer q else Some (last ks))\<rparr>) \<and>
           question_shown w' \<and>
           currentLesson w' = currentLesson w \<and> saved w' = saved w \<and>
           quizStartTime w' = quizStartTime w"
  using assms
proof (induction ks arbitrary: w q)
  case Nil
  then show ?case by simp
next
  case (Cons k ks)
  from Cons.prems have "valid_option (questions q ! currentQuestionIndex q) k" by simp
  from selectOption_valid [OF Cons.prems(1,2) this]
  obtain w1 where w1: "selectOption k w = Inr w1"
      "currentQuiz w1 = Some (q\<lparr>selectedAnswer := Some k\<rparr>)" "question_shown w1"
      "currentLesson w1 = currentLesson w" "saved w1 = saved w"
      "quizStartTime w1 = quizStartTime w"
    by blast
  have "\<forall>k'\<in>set ks. valid_option (questions (q\<lparr>selectedAnswer := Some k\<rparr>) !
           currentQuestionIndex (q\<lparr>selectedAnswer := Some k\<rparr>)) k'"
    using Cons.prems(3) by simp
  from Cons.IH [OF w1(3) w1(2) this] w1 show ?case by auto
qed

lemma submitQuizAnswer_selected:
  assumes "currentQuiz w = Some q" "selectedAnswer q = Some k"
    and "currentQuestionIndex q < length (questions q)"
    and "length (userAnswers q) = currentQuestionIndex q"
  shows "\<exists>w'. submitQuizAnswer w = Inr w' \<and>
           currentQuiz w' =
             Some (q\<lparr>userAnswers := userAnswers q @ [recorded (questions q ! currentQuestionIndex q) k],
                     score := score q + (if k = correctAnswer (questions q ! currentQuestionIndex q) then 1 else 0),
                     selectedAnswer := None\<rparr>) \<and>
           currentLesson w' = currentLesson w \<and> saved w' = saved w \<and>
           quizStartTime w' = quizStartTime w"
  using assms
  by (simp add: submitQuizAnswer_def array_set_def recorded_def Let_def)

lemma nextQuizQuestion_more:
  assumes "currentQuiz w = Some q"
    and "currentQuestionIndex q + 1 < length (questions q)"
  shows "\<exists>w'. nextQuizQuestion now w = Inr w' \<and>
           currentQuiz w' = Some (q\<lparr>currentQuestionIndex := currentQuestionIndex q + 1\<rparr>) \<and>
           question_shown w' \<and>
           nextQuestionBtn_hidden (page w') \<and>
           currentLesson w' = currentLesson w \<and> saved w' = saved w \<and>
           quizStartTime w' = quizStartTime w"
  using assms
  by (simp add: nextQuizQuestion_def displayQuestion_def question_shown_def Let_def
      forEach_option_item_def shape_for_each_item shape_clear_selected)

lemma finished_report_cong:
  assumes "currentLesson w = currentLesson v" "saved w = saved v"
    and "quizStartTime w = quizStartTime v"
    and "score q = score p" "questions q = questions p" "userAnswers q = userAnswers p"
  shows "finished_report now w q w' = finished_report now v p w'"
  using assms by (simp add: finished_report_def split: option.splits)

lemma nextQuizQuestion_last:
  assumes "currentQuiz w = Some q"
    and "\<not> currentQuestionIndex q + 1 < length (questions q)"
  shows "\<exists>w'. nextQuizQuestion now w = Inr w' \<and>
           currentQuiz w' = Some (q\<lparr>currentQuestionIndex := currentQuestionIndex q + 1\<rparr>) \<and>
           currentLesson w' = currentLesson w \<and>
           finished_report now w q w'"
  using assms
  by (simp add: nextQuizQuestion_def finishQuiz_def saveQuizResults_def showToast_def Let_def
      finished_report_def split: option.splits)

lemma answerQuestion_step:
  assumes shown: "question_shown w" and q: "currentQuiz w = Some q"
    and len: "length (userAnswers q) = currentQuestionIndex q"
    and ks: "ks \<noteq> []" "\<forall>k\<in>set ks. valid_option (questions q ! currentQuestionIndex q) k"
  shows "\<exists>w'. answerQuestion now ks w = Inr w' \<and>
           currentQuiz w' = Some (answered q (last ks)) \<and>
           currentLesson w' = currentLesson w \<and>
           (if currentQuestionIndex q + 1 < length (questions q)
            then question_shown w' \<and> saved w' = saved w \<and> quizStartTime w' = quizStartTime w
            else finished_report now w (answered q (last ks)) w')"
proof -
  from shown q have idx: "currentQuestionIndex q < length (questions q)"
    by (simp add: question_shown_def)
  from selectOptions_valid [OF shown q ks(2)] ks(1)
  obtain w1 where w1: "selectOptions ks w = Inr w1"
      "currentQuiz w1 = Some (q\<lparr>selectedAnswer := Some (last ks)\<rparr>)"
      "currentLesson w1 = currentLesson w" "saved w1 = saved w"
      "quizStartTime w1 = quizStartTime w"
    by auto
  let ?q1 = "q\<lparr>selectedAnswer := Some (last ks)\<rparr>"
  have "\<exists>w'. submitQuizAnswer w1 = Inr w' \<and>
           currentQuiz w' =
             Some (?q1\<lparr>userAnswers := userAnswers ?q1 @ [recorded (questions ?q1 ! currentQuestionIndex ?q1) (last ks)],
                     score := score ?q1 + (if last ks = correctAnswer (questions ?q1 ! currentQuestionIndex ?q1) then 1 else 0),
                     selectedAnswer := None\<rparr>) \<and>
           currentLesson w' = currentLesson w1 \<and> saved w' = saved w1 \<and>
           quizStartTime w' = quizStartTime w1"
    by (rule submitQuizAnswer_selected [OF w1(2)]) (simp_all add: idx len)
  then obtain w2 where w2: "submitQuizAnswer w1 = Inr w2"
      "currentQuiz w2 =
         Some (q\<lparr>userAnswers := userAnswers q @ [recorded (questions q ! currentQuestionIndex q) (last ks)],
                 score := score q + (if last ks = correctAnswer (questions q ! currentQuestionIndex q) then 1 else 0),
                 selectedAnswer := None\<rparr>)"
      "currentLesson w2 = currentLesson w" "saved w2 = saved w"
      "quizStartTime w2 = quizStartTime w"
    using w1 by auto
  let ?q2 = "q\<lparr>userAnswers := userAnswers q @ [recorded (questions q ! currentQuestionIndex q) (last ks)],
                 score := score q + (if last ks = correctAnswer (questions q ! currentQuestionIndex q) then 1 else 0),
                 selectedAnswer := None\<rparr>"
  have run: "answerQuestion now ks w = nextQuizQuestion now w2"
    by (simp add: answerQuestion_def w1(1) w2(1))
  have q2: "?q2\<lparr>currentQuestionIndex := currentQuestionIndex ?q2 + 1\<rparr> = answered q (last ks)"
    by (simp add: answered_def Let_def)
  show ?thesis
  proof (cases "currentQuestionIndex q + 1 < length (questions q)")
    case True
    then have "currentQuestionIndex ?q2 + 1 < length (questions ?q2)" by simp
    from nextQuizQuestion_more [OF w2(2) this, of now] w2(3-) True q2 show ?thesis
      by (auto simp: run)
  next
    case False
    then have "\<not> currentQuestionIndex ?q2 + 1 < length (questions ?q2)" by simp
    from nextQuizQuestion_last [OF w2(2) this, of now]
    obtain w' where w': "nextQuizQuestion now w2 = Inr w'"
        "currentQuiz w' = Some (?q2\<lparr>currentQuestionIndex := currentQuestionIndex ?q2 + 1\<rparr>)"
        "currentLesson w' = currentLesson w2" "finished_report now w2 ?q2 w'"
      by blast
    have "finished_report now w2 ?q2 w' = finished_report now w (answered q (last ks)) w'"
      using w2(3-) by (intro finished_report_cong) (simp_all add: answered_def Let_def)
    with w' w2(3) q2 False show ?thesis by (simp add: run)
  qed
qed

lemma answered_simps [simp]:
  "questions (answered q k) = questions q"
  "currentQuestionIndex (answered q k) = currentQuestionIndex q + 1"
  "length (userAnswers (answered q k)) = length (userAnswers q) + 1"
  "selectedAnswer (answered q k) = None"
  by (simp_all add: answered_def Let_def)

lemma playQuiz_run:
  assumes "currentQuiz w = Some q"
    and "kss \<noteq> [] \<Longrightarrow> question_shown w"
    and "length (userAnswers q) = currentQuestionIndex q"
    and "list_all2 (\<lambda>ks qn. ks \<noteq> [] \<and> (\<forall>k\<in>set ks. valid_option qn k)) kss
           (drop (currentQuestionIndex q) (questions q))"
  shows "\<exists>w'. playQuiz now kss w = Inr w' \<and>
           currentQuiz w' = Some (answered_all q (map last kss)) \<and>
           currentLesson w' = currentLesson w \<and>
           (kss \<noteq> [] \<longrightarrow> finished_report now w (answered_all q (map last kss)) w')"
  using assms
proof (induction kss arbitrary: w q)
  case Nil
  then show ?case by simp
next
  case (Cons ks kss)
  let ?i = "currentQuestionIndex q"
  from Cons.prems(4) obtain qn qns where dr: "drop ?i (questions q) = qn # qns"
    and ks: "ks \<noteq> []" "\<forall>k\<in>set ks. valid_option qn k"
    and rest: "list_all2 (\<lambda>ks qn. ks \<noteq> [] \<and> (\<forall>k\<in>set ks. valid_option qn k)) kss qns"
    by (auto simp: list_all2_Cons1)
  from dr have idx: "?i < length (questions q)"
    by (metis drop_all list.distinct(1) not_le)
  from dr idx have qn: "questions q ! ?i = qn" and qns: "drop (?i + 1) (questions q) = qns"
    by (simp_all add: Cons_nth_drop_Suc [symmetric])
  have shown: "question_shown w" using Cons.prems(2) by simp
  from ks(2) qn have valid: "\<forall>k\<in>set ks. valid_option (questions q ! ?i) k" by simp
  from answerQuestion_step [OF shown Cons.prems(1) Cons.prems(3) ks(1) valid, of now]
  obtain w1 where w1: "answerQuestion now ks w = Inr w1"
      "currentQuiz w1 = Some (answered q (last ks))"
      "currentLesson w1 = currentLesson w"
      "if ?i + 1 < length (questions q)
       then question_shown w1 \<and> saved w1 = saved w \<and> quizStartTime w1 = quizStartTime w
       else finished_report now w (answered q (last ks)) w1"
    by blast
  let ?q1 = "answered q (last ks)"
  have len1: "length (userAnswers ?q1) = currentQuestionIndex ?q1"
    using Cons.prems(3) by simp
  have rest1: "list_all2 (\<lambda>ks qn. ks \<noteq> [] \<and> (\<forall>k\<in>set ks. valid_option qn k)) kss
                 (drop (currentQuestionIndex ?q1) (questions ?q1))"
    using rest qns by simp
  have more: "kss \<noteq> [] \<longleftrightarrow> ?i + 1 < length (questions q)"
  proof -
    from rest have "length kss = length qns" by (rule list_all2_lengthD)
    with qns have "length kss = length (questions q) - (?i + 1)" by auto
    then show ?thesis by (cases kss) auto
  qed
  have shown1: "kss \<noteq> [] \<Longrightarrow> question_shown w1" using w1(4) more by simp
  from Cons.IH [OF w1(2) shown1 len1 rest1]
  obtain w' where w': "playQuiz now kss w1 = Inr w'"
      "currentQuiz w' = Some (answered_all ?q1 (map last kss))"
      "currentLesson w' = currentLesson w1"
      "kss \<noteq> [] \<longrightarrow> finished_report now w1 (answered_all ?q1 (map last kss)) w'"
    by blast
  have run: "playQuiz now (ks # kss) w = Inr w'" by (simp add: w1(1) w'(1))
  have fin: "finished_report now w (answered_all q (map last (ks # kss))) w'"
  proof (cases "kss = []")
    case True
    with more w1(4) have "finished_report now w ?q1 w1" by simp
    moreover from True w'(1) have "w' = w1" by simp
    ultimately show ?thesis using True by simp
  next
    case False
    with more w1(4) have "saved w1 = saved w" "quizStartTime w1 = quizStartTime w" by simp_all
    with w1(3)
    have "finished_report now w1 (answered_all ?q1 (map last kss)) w' =
          finished_report now w (answered_all ?q1 (map last kss)) w'"
      by (intro finished_report_cong) simp_all
    with False w'(4) show ?thesis by simp
  qed
  from run w'(2) w'(3) w1(3) fin show ?case by simp
qed

section \<open>A whole quiz\<close>

lemma answered_all_questions [simp]: "questions (answered_all q ks) = questions q"
  by (induction ks arbitrary: q) simp_all

lemma answered_all_index [simp]:
  "currentQuestionIndex (answered_all q ks) = currentQuestionIndex q + length ks"
  by (induction ks arbitrary: q) simp_all

lemma answered_all_length [simp]:
  "length (userAnswers (answered_all q ks)) = length (userAnswers q) + length ks"
  by (induction ks arbitrary: q) simp_all

lemma answered_count:
  "score q = count_correct (userAnswers q) \<Longrightarrow>
   score (answered q k) = count_correct (userAnswers (answered q k))"
  by (simp add: answered_def count_correct_def recorded_def Let_def)

lemma answered_all_count:
  "score q = count_correct (userAnswers q) \<Longrightarrow>
   score (answered_all q ks) = count_correct (userAnswers (answered_all q ks))"
  by (induction ks arbitrary: q) (simp_all add: answered_count)

lemma answered_all_correct:
  "ks = map correctAnswer (drop (currentQuestionIndex q) (questions q)) \<Longrightarrow>
   score (answered_all q ks) = score q + length ks"
proof (induction ks arbitrary: q)
  case Nil
  then show ?case by simp
next
  case (Cons k ks)
  let ?i = "currentQuestionIndex q"
  from Cons.prems obtain qn qns where dr: "drop ?i (questions q) = qn # qns"
    and k: "k = correctAnswer qn" and ks: "ks = map correctAnswer qns"
    by (cases "drop ?i (questions q)") auto
  from dr have idx: "?i < length (questions q)"
    by (metis drop_all list.distinct(1) not_le)
  from dr idx have qn: "questions q ! ?i = qn" and qns: "drop (?i + 1) (questions q) = qns"
    by (simp_all add: Cons_nth_drop_Suc [symmetric])
  have "ks = map correctAnswer
          (drop (currentQuestionIndex (answered q k)) (questions (answered q k)))"
    using ks qns by simp
  from Cons.IH [OF this]
  have "score (answered_all (answered q k) ks) = score (answered q k) + length ks" .
  moreover have "score (answered q k) = score q + 1"
    using k qn by (simp add: answered_def Let_def)
  ultimately show ?case by simp
qed

text \<open>
  A successful answer of the server with at least one question, while a lesson is loaded:
  the session is replaced by a fresh one and the first question is shown.
\<close>

lemma startQuiz_fresh:
  assumes "currentLesson w = Some l" "lesson_id l \<noteq> 0" "qs \<noteq> []"
  shows "currentQuiz (startQuiz now (Responded \<lparr>success = True, quiz = qs, error = e\<rparr>) w) =
           Some \<lparr>questions = qs, currentQuestionIndex = 0, userAnswers = [], score = 0,
                 selectedAnswer = None\<rparr>"
    and "question_shown (startQuiz now (Responded \<lparr>success = True, quiz = qs, error = e\<rparr>) w)"
    and "currentLesson (startQuiz now (Responded \<lparr>success = True, quiz = qs, error = e\<rparr>) w) =
           currentLesson w"
    and "saved (startQuiz now (Responded \<lparr>success = True, quiz = qs, error = e\<rparr>) w) = saved w"
    and "quizResult_hidden
           (page (startQuiz now (Responded \<lparr>success = True, quiz = qs, error = e\<rparr>) w))"
  using assms
  by (simp_all add: startQuiz_def startQuiz_then_def showLoading_def hideLoading_def
      showToast_def displayQuestion_def question_shown_def Let_def
      forEach_option_item_def shape_for_each_item shape_clear_selected)

text \<open>
  A quiz started and played to the end, one non-empty run of valid clicks per question:
  the session that results, and the report of \<^verbatim>\<open>finishQuiz\<close>.
\<close>

lemma started_quiz_played:
  fixes t0 :: int and e :: "string option"
  assumes lesson: "currentLesson w = Some l" "lesson_id l \<noteq> 0"
    and qs: "qs \<noteq> []"
    and sel: "list_all2 (\<lambda>ks qn. ks \<noteq> [] \<and> (\<forall>k\<in>set ks. valid_option qn k)) kss qs"
    and w0: "w0 = startQuiz t0 (Responded \<lparr>success = True, quiz = qs, error = e\<rparr>) w"
    and q': "q' = answered_all \<lparr>questions = qs, currentQuestionIndex = 0, userAnswers = [],
                   score = 0, selectedAnswer = None\<rparr> (map last kss)"
  shows "\<exists>w'. playQuiz t1 kss w0 = Inr w' \<and> currentQuiz w' = Some q' \<and>
           finished_report t1 w0 q' w'"
proof -
  let ?q0 = "\<lparr>questions = qs, currentQuestionIndex = 0, userAnswers = [], score = 0,
              selectedAnswer = None\<rparr>"
  note st = startQuiz_fresh [OF lesson qs, of t0 e]
  from sel have "length kss = length qs" by (rule list_all2_lengthD)
  with qs have ne: "kss \<noteq> []" by auto
  have "\<exists>w'. playQuiz t1 kss w0 = Inr w' \<and>
           currentQuiz w' = Some (answered_all ?q0 (map last kss)) \<and>
           currentLesson w' = currentLesson w0 \<and>
           (kss \<noteq> [] \<longrightarrow> finished_report t1 w0 (answered_all ?q0 (map last kss)) w')"
    unfolding w0 by (rule playQuiz_run [OF st(1)]) (simp_all add: st(2) sel)
  with ne show ?thesis by (auto simp: q')
qed

section \<open>The example states, evaluated\<close>

lemmas example_defs = blank_page_def example_lesson_def idle_world_def four_options_def
  example_questions_def example_response_def example_started_def example_revealed_def
  example_parser_def marked_option_def

lemmas quiz_defs = startQuiz_def startQuiz_then_def startQuiz_catch_def
  showLoading_def hideLoading_def showToast_def displayQuestion_def option_elements_def
  forEach_option_item_def count_items_def select_element_def
  selectOption_def submitQuizAnswer_def mark_option_def array_set_def nextQuizQuestion_def
  finishQuiz_def saveQuizResults_def feedback_for_def

lemma idle_world_lesson:
  "currentLesson idle_world = Some example_lesson" "lesson_id example_lesson \<noteq> 0"
  by (simp_all add: idle_world_def example_lesson_def)

lemma example_started_quiz:
  "currentQuiz example_started =
     Some \<lparr>questions = example_questions, currentQuestionIndex = 0, userAnswers = [],
           score = 0, selectedAnswer = None\<rparr>"
  by (simp add: example_defs quiz_defs)

lemma example_started_shown: "question_shown example_started"
  by (simp add: example_defs quiz_defs question_shown_def)

lemma example_revealed_quiz:
  "currentQuiz (projr example_revealed) =
     Some \<lparr>questions = example_questions, currentQuestionIndex = 0,
           userAnswers = [Some \<lparr>selected = 1, correct = 1, isCorrect = True\<rparr>],
           score = 1, selectedAnswer = None\<rparr>"
  by (simp add: example_defs quiz_defs)

lemma example_played_state:
  "currentQuiz (projr example_played) =
     Some \<lparr>questions = example_questions, currentQuestionIndex = 4,
           userAnswers =
             [Some \<lparr>selected = 1, correct = 1, isCorrect = True\<rparr>,
              Some \<lparr>selected = 0, correct = 0, isCorrect = True\<rparr>,
              Some \<lparr>selected = 0, correct = 2, isCorrect = False\<rparr>,
              Some \<lparr>selected = 3, correct = 3, isCorrect = True\<rparr>],
           score = 3, selectedAnswer = None\<rparr>"
  "currentLesson (projr example_played) = Some example_lesson"
  by code_simp+

lemma example_selected_quiz:
  "currentQuiz example_selected =
     Some \<lparr>questions = example_questions, currentQuestionIndex = 0, userAnswers = [],
           score = 0, selectedAnswer = Some 1\<rparr>"
  by (simp add: example_selected_def example_defs quiz_defs)

lemma example_selected_shown: "question_shown example_selected"
  by (simp add: example_selected_def example_defs quiz_defs question_shown_def
      element_shape_def)

lemma example_selected_page:
  "elements_before (page example_selected) = []"
  "elements_after (page example_selected) = []"
  "parseHTML example_selected = example_parser"
  by (simp_all add: example_selected_def example_defs quiz_defs)

section \<open>Claims about the quiz session\<close>

subsection \<open>Scoring\<close>

text \<open>
  When every question is submitted once, the score is the number of stored answer
  records whose \<^verbatim>\<open>isCorrect\<close> is true: the quiz is started on a non-empty question set
  \<open>qs\<close>; \<open>kss\<close> gives, for each question in order, the options clicked before the submit
  button (one or more, each an option of that question; the last click counts), and the
  next button follows.
\<close>

lemma score_counts_with_one_submission:
  assumes "currentLesson w = Some l" and "lesson_id l \<noteq> 0"
    and "qs \<noteq> []"
    and "list_all2 (\<lambda>ks qn. ks \<noteq> [] \<and> (\<forall>k\<in>set ks. valid_option qn k)) kss qs"
  shows "\<exists>w' q'. playQuiz t1 kss
                    (startQuiz t0 (Responded \<lparr>success = True, quiz = qs, error = e\<rparr>) w) = Inr w' \<and>
           currentQuiz w' = Some q' \<and>
           questions q' = qs \<and>
           currentQuestionIndex q' = length qs \<and>
           length (userAnswers q') = length qs \<and>
           \<not> quizResult_hidden (page w') \<and>
           finalScore (page w') = (score q', length qs) \<and>
           score q' = count_correct (userAnswers q')"
proof -
  let ?q' = "answered_all \<lparr>questions = qs, currentQuestionIndex = 0, userAnswers = [],
                score = 0, selectedAnswer = None\<rparr> (map last kss)"
  from started_quiz_played [OF assms refl refl, of t1 t0 e]
  obtain w' where w': "playQuiz t1 kss
        (startQuiz t0 (Responded \<lparr>success = True, quiz = qs, error = e\<rparr>) w) = Inr w'"
      "currentQuiz w' = Some ?q'"
      "finished_report t1 (startQuiz t0 (Responded \<lparr>success = True, quiz = qs, error = e\<rparr>) w)
         ?q' w'"
    by blast
  from assms(4) have len: "length kss = length qs" by (rule list_all2_lengthD)
  have "score ?q' = count_correct (userAnswers ?q')"
    by (rule answered_all_count) (simp add: count_correct_def)
  with w' len show ?thesis by (simp add: finished_report_def)
qed

text \<open>
  C1. For every question set and every sequence of selections, the score of the session
  after the quiz has finished is the number of stored answer records whose
  \<^verbatim>\<open>isCorrect\<close> is true. The code breaks this when a question is submitted twice. After
  a submission the submit button is disabled and \<^verbatim>\<open>selectedAnswer\<close> is cleared, but the
  options still answer to clicks: \<^verbatim>\<open>selectOption\<close> enables the button again, and the
  second \<^verbatim>\<open>submitQuizAnswer\<close> overwrites the record of the question and counts it once
  more. On one question with the correct option 0: option 0, submit, option 0, submit,
  next. The quiz finishes with score 2 and one stored record, of which one is correct;
  the page shows 2/1 and 200 percent.
\<close>

theorem second_submission_counts_twice:
  "submitAnswerBtn_disabled (page (projr once_submitted)) \<and>
   \<not> isl reselected \<and>
   \<not> submitAnswerBtn_disabled (page (projr reselected)) \<and>
   \<not> isl resubmitted \<and>
   \<not> quizResult_hidden (page (projr resubmitted)) \<and>
   map_option currentQuestionIndex (currentQuiz (projr resubmitted)) = Some 1 \<and>
   map_option score (currentQuiz (projr resubmitted)) = Some 2 \<and>
   map_option userAnswers (currentQuiz (projr resubmitted)) =
     Some [Some \<lparr>selected = 0, correct = 0, isCorrect = True\<rparr>] \<and>
   map_option (count_correct \<circ> userAnswers) (currentQuiz (projr resubmitted)) = Some 1 \<and>
   finalScore (page (projr resubmitted)) = (2, 1) \<and>
   finalPercentage (page (projr resubmitted)) = JsNum 200"
  by code_simp

text \<open>
  C2. The quiz of four questions with correct option indices 1, 0, 2, 3, answered with
  the selections 1, 0, 0, 3 (each selected, submitted and followed by the next button):
  the run returns normally, the score is 3, the percentage shown and sent is 75, and the
  answer records, in the session and in the save request, are
  (1, 1, true), (0, 0, true), (0, 2, false), (3, 3, true).
\<close>

theorem example_quiz_scenario:
  "\<not> isl example_played \<and>
   map_option score (currentQuiz (projr example_played)) = Some 3 \<and>
   finalScore (page (projr example_played)) = (3, 4) \<and>
   finalPercentage (page (projr example_played)) = JsNum 75 \<and>
   map save_score (saved (projr example_played)) = [JsNum 75] \<and>
   map_option userAnswers (currentQuiz (projr example_played)) =
     Some [Some \<lparr>selected = 1, correct = 1, isCorrect = True\<rparr>,
           Some \<lparr>selected = 0, correct = 0, isCorrect = True\<rparr>,
           Some \<lparr>selected = 0, correct = 2, isCorrect = False\<rparr>,
           Some \<lparr>selected = 3, correct = 3, isCorrect = True\<rparr>] \<and>
   map answers (saved (projr example_played)) =
     [Some \<lparr>selected = 1, correct = 1, isCorrect = True\<rparr>,
      Some \<lparr>selected = 0, correct = 0, isCorrect = True\<rparr>,
      Some \<lparr>selected = 0, correct = 2, isCorrect = False\<rparr>,
      Some \<lparr>selected = 3, correct = 3, isCorrect = True\<rparr>] # []"
  by code_simp

text \<open>
  C9. For every non-empty question set whose correct indices name options, starting the
  quiz and then, for each question in order, selecting the correct option, submitting
  and advancing ends with a score equal to the number of questions and a percentage of
  100, on the page and in the save request.
\<close>

theorem all_correct_scores_100:
  assumes "currentLesson w = Some l" and "lesson_id l \<noteq> 0"
    and "qs \<noteq> []"
    and "\<forall>qn\<in>set qs. valid_option qn (correctAnswer qn)"
  shows "\<exists>w' q'. playQuiz t1 (map (\<lambda>qn. [correctAnswer qn]) qs)
                    (startQuiz t0 (Responded \<lparr>success = True, quiz = qs, error = e\<rparr>) w) = Inr w' \<and>
           currentQuiz w' = Some q' \<and>
           currentQuestionIndex q' = length qs \<and>
           score q' = length qs \<and>
           finalScore (page w') = (length qs, length qs) \<and>
           finalPercentage (page w') = JsNum 100 \<and>
           map save_score (saved w') = map save_score (saved w) @ [JsNum 100]"
proof -
  let ?w0 = "startQuiz t0 (Responded \<lparr>success = True, quiz = qs, error = e\<rparr>) w"
  let ?q0 = "\<lparr>questions = qs, currentQuestionIndex = 0, userAnswers = [], score = 0,
              selectedAnswer = None\<rparr>"
  let ?kss = "map (\<lambda>qn. [correctAnswer qn]) qs"
  let ?q' = "answered_all ?q0 (map last ?kss)"
  note st = startQuiz_fresh [OF assms(1-3), of t0 e]
  have sel: "list_all2 (\<lambda>ks qn. ks \<noteq> [] \<and> (\<forall>k\<in>set ks. valid_option qn k)) ?kss qs"
    using assms(4) by (simp add: list_all2_map1 list_all2_same)
  from started_quiz_played [OF assms(1-3) sel refl refl, of t1 t0 e]
  obtain w' where w': "playQuiz t1 ?kss ?w0 = Inr w'" "currentQuiz w' = Some ?q'"
      "finished_report t1 ?w0 ?q' w'"
    by blast
  have last: "map last ?kss = map correctAnswer qs" by (simp add: comp_def)
  have "score ?q' = score ?q0 + length (map last ?kss)"
    by (rule answered_all_correct) (simp add: last)
  then have sc: "score ?q' = length qs" by simp
  from assms(3) have n: "1 \<le> length qs" by (cases qs) simp_all
  note pc = full_score_percentage [OF n]
  from w'(3) have "finalScore (page w') = (length qs, length qs)"
    and "finalPercentage (page w') = JsNum 100"
    and "map save_score (saved w') = map save_score (saved w) @ [JsNum 100]"
    using sc pc st(3,4) assms(1,2) by (simp_all add: finished_report_def)
  with w'(1,2) sc show ?thesis by simp
qed

theorem all_correct_scores_100_witness:
  "list_all (\<lambda>qn. valid_option qn (correctAnswer qn)) example_questions \<and>
   (\<exists>w' q'. playQuiz 9000 (map (\<lambda>k. [k]) [1, 0, 2, 3]) example_started = Inr w' \<and>
      currentQuiz w' = Some q' \<and> score q' = 4 \<and>
      finalPercentage (page w') = JsNum 100 \<and>
      map save_score (saved w') = [JsNum 100])"
proof -
  have qs: "example_questions \<noteq> []" by (simp add: example_questions_def)
  have wf: "\<forall>qn\<in>set example_questions. valid_option qn (correctAnswer qn)"
    by (simp add: example_questions_def four_options_def valid_option_def)
  have len: "length example_questions = 4" by (simp add: example_questions_def)
  have run: "map (\<lambda>qn. [correctAnswer qn]) example_questions = map (\<lambda>k. [k]) [1, 0, 2, 3]"
    by (simp add: example_questions_def)
  have sv: "saved idle_world = []" by (simp add: idle_world_def)
  have wf': "list_all (\<lambda>qn. valid_option qn (correctAnswer qn)) example_questions"
    using wf by (simp only: list_all_iff)
  from all_correct_scores_100 [OF idle_world_lesson qs wf, of 9000 1000 None] wf' len sv
  show ?thesis by (auto simp: run example_started_def example_response_def)
qed

subsection \<open>The percentage\<close>

text \<open>
  Against C3 as it is worded: 23 correct answers out of 40 questions. The exact quotient
  \<open>100 \<cdot> 23 / 40 = 57.5\<close> rounds half up to 58; the double \<^verbatim>\<open>(23 / 40) * 100\<close> is
  \<open>57.49999999999999\<close>, and \<^verbatim>\<open>finishQuiz\<close> reports 57.
\<close>

theorem percentage_of_exact_quotient_counterexample:
  "\<not> isl forty_played \<and>
   map_option score (currentQuiz (projr forty_played)) = Some 23 \<and>
   map_option (length \<circ> questions) (currentQuiz (projr forty_played)) = Some 40 \<and>
   finalPercentage (page (projr forty_played)) = JsNum 57 \<and>
   spec_percentage 23 40 = 58"
  by code_simp

text \<open>
  C3, amended. When the session finishes with \<open>0 \<le> score \<le> totalQuestions\<close> and
  \<open>totalQuestions \<ge> 1\<close> (an array, so fewer than \<open>2\<^sup>3\<^sup>2\<close> questions), the percentage
  reported is round-half-up of the double-precision product \<^verbatim>\<open>(score / total) * 100\<close>. It
  lies in \<open>[0, 100]\<close>. It equals round-half-up of the exact quotient
  \<open>100 \<cdot> score / total\<close> whenever that quotient is not exactly halfway between two
  integers; at such a tie it is that value or one less.
\<close>

theorem finishQuiz_percentage:
  assumes "currentQuiz w = Some q"
    and "score q \<le> length (questions q)" and "1 \<le> length (questions q)"
    and "length (questions q) < 2 ^ 32"
  shows "\<exists>w' p. finishQuiz now w = Inr w' \<and>
           finalPercentage (page w') = JsNum (of_int p) \<and>
           p = \<lfloor>round_double
                 (round_double (of_nat (score q) / of_nat (length (questions q))) * 100) +
                1 / 2\<rfloor> \<and>
           0 \<le> p \<and> p \<le> 100 \<and>
           (if exact_tie (score q) (length (questions q))
            then p = spec_percentage (score q) (length (questions q)) \<or>
                 p = spec_percentage (score q) (length (questions q)) - 1
            else p = spec_percentage (score q) (length (questions q)))"
proof -
  let ?s = "score q" and ?n = "length (questions q)"
  let ?p = "\<lfloor>round_double (round_double (of_nat ?s / of_nat ?n) * 100) + 1 / 2\<rfloor>"
  from assms(3) have "Math_round (js_times (js_divide ?s ?n) 100) = JsNum (of_int ?p)"
    by (cases "questions q") (simp_all add: js_divide_def)
  then have "\<exists>w'. finishQuiz now w = Inr w' \<and> finalPercentage (page w') = JsNum (of_int ?p)"
    using assms(1)
    by (simp add: finishQuiz_def saveQuizResults_def showToast_def Let_def
        split: option.splits)
  moreover note percentage_bounds [OF assms(2,3)] percentage_exact [OF assms(2-4)]
  ultimately show ?thesis by blast
qed

theorem finishQuiz_percentage_witness:
  "map_option score (currentQuiz (projr example_played)) = Some 3 \<and>
   map_option (length \<circ> questions) (currentQuiz (projr example_played)) = Some 4 \<and>
   (\<exists>w' p. finishQuiz 9500 (projr example_played) = Inr w' \<and>
      finalPercentage (page w') = JsNum (of_int p) \<and> 0 \<le> p \<and> p \<le> 100 \<and>
      p = spec_percentage 3 4 \<and> p = 75)"
proof -
  let ?q = "\<lparr>questions = example_questions, currentQuestionIndex = 4,
             userAnswers =
               [Some \<lparr>selected = 1, correct = 1, isCorrect = True\<rparr>,
                Some \<lparr>selected = 0, correct = 0, isCorrect = True\<rparr>,
                Some \<lparr>selected = 0, correct = 2, isCorrect = False\<rparr>,
                Some \<lparr>selected = 3, correct = 3, isCorrect = True\<rparr>],
             score = 3, selectedAnswer = None\<rparr>"
  have len: "length example_questions = 4" by (simp add: example_questions_def)
  have h2: "score ?q \<le> length (questions ?q)" by (simp add: len)
  have h3: "1 \<le> length (questions ?q)" by (simp add: len)
  have h4: "length (questions ?q) < 2 ^ 32" by (simp add: len)
  have tie: "\<not> exact_tie 3 4" by (simp add: exact_tie_def)
  have sp: "spec_percentage 3 4 = 75" by code_simp
  from finishQuiz_percentage [OF example_played_state(1) h2 h3 h4, of 9500] tie sp len
  show ?thesis by (auto simp: example_played_state(1))
qed

subsection \<open>Starting\<close>




text \<open>
  C8. Whatever the state before (no quiz, a quiz under way, a finished quiz), a start
  that receives a non-empty question set (a lesson being loaded) discards the old
  session: the new session has the new questions, index 0, score 0 and no answers, the
  first question is shown and the result panel is hidden.
\<close>

theorem start_replaces_session:
  assumes "currentLesson w = Some l" and "lesson_id l \<noteq> 0" and "qs \<noteq> []"
  shows "currentQuiz (startQuiz now (Responded \<lparr>success = True, quiz = qs, error = e\<rparr>) w) =
           Some \<lparr>questions = qs, currentQuestionIndex = 0, userAnswers = [], score = 0,
                 selectedAnswer = None\<rparr> \<and>
         question_shown (startQuiz now (Responded \<lparr>success = True, quiz = qs, error = e\<rparr>) w) \<and>
         quizResult_hidden
           (page (startQuiz now (Responded \<lparr>success = True, quiz = qs, error = e\<rparr>) w))"
  using startQuiz_fresh [OF assms] by simp

theorem start_replaces_session_witness:
  "map_option score (currentQuiz (projr example_played)) = Some 3 \<and>
   currentLesson (projr example_played) = Some example_lesson \<and>
   forty_questions \<noteq> [] \<and>
   currentQuiz
     (startQuiz 20000 (Responded \<lparr>success = True, quiz = forty_questions, error = None\<rparr>)
        (projr example_played)) =
     Some \<lparr>questions = forty_questions, currentQuestionIndex = 0, userAnswers = [], score = 0,
           selectedAnswer = None\<rparr>"
proof -
  have qs: "forty_questions \<noteq> []" by (simp add: forty_questions_def)
  from start_replaces_session
    [OF example_played_state(2) idle_world_lesson(2) qs, of 20000 None]
  show ?thesis using qs by (simp add: example_played_state)
qed

subsection \<open>Selecting\<close>

text \<open>
  Against C5 as it is worded, twice. First: the second option text of the question shown
  carries markup with \<^verbatim>\<open>data-option-index=5\<close>; \<^verbatim>\<open>displayQuestion\<close> writes it through
  \<^verbatim>\<open>innerHTML\<close>, the lookup of \<^verbatim>\<open>selectOption(5)\<close> finds the element it made, and the
  call returns normally with 5 as the selected answer, although the question has two
  options. Second: on the plain example quiz with option 1 selected,
  \<^verbatim>\<open>selectOption(4)\<close> throws, and the state it leaves is not the state before: the
  highlight was taken from the options.
\<close>

theorem selectOption_out_of_range_counterexample:
  "question_shown marked_started \<and>
   \<not> valid_option (marked_questions ! 0) 5 \<and>
   \<not> isl (selectOption 5 marked_started) \<and>
   map_option selectedAnswer (currentQuiz (projr (selectOption 5 marked_started))) =
     Some (Some 5) \<and>
   question_shown example_selected \<and>
   map_option selectedAnswer (currentQuiz example_selected) = Some (Some 1) \<and>
   \<not> valid_option (example_questions ! 0) 4 \<and>
   isl (selectOption 4 example_selected) \<and>
   page (snd (projl (selectOption 4 example_selected))) \<noteq> page example_selected"
  by (simp add: example_defs quiz_defs question_shown_def valid_option_def
      marked_questions_def marked_started_def example_selected_def element_shape_def)

text \<open>
  C5, amended. While a question is shown (nothing selected yet, or an option selected),
  \<^verbatim>\<open>selectOption\<close> with an integer outside \<open>[0, len(options))\<close> fails, provided no
  element made by markup carries that integer as its \<^verbatim>\<open>data-option-index\<close> (none
  outside the list of options, and none inside an option text). The failure is the
  \<^verbatim>\<open>TypeError\<close> of the element lookup that found nothing; the code has no
  \<open>OutOfRange\<close> kind. The session stays as it was (the session object with its selected
  answer, the start time, the lesson, the requests sent); on the page the highlight
  \<^verbatim>\<open>selected\<close> is taken from the option items and nothing else changes.
\<close>

theorem selectOption_out_of_range:
  assumes "question_shown w" and "currentQuiz w = Some q"
    and "\<not> valid_option (questions q ! currentQuestionIndex q) optionIndex"
    and "\<forall>el\<in>set (elements_before (page w) @ elements_after (page w)).
           data_option_index el \<noteq> Some optionIndex"
    and "\<forall>option\<in>set (options (questions q ! currentQuestionIndex q)).
           \<forall>el\<in>set (parseHTML w option). data_option_index el \<noteq> Some optionIndex"
  shows "\<exists>w'. selectOption optionIndex w = Inl (TypeError, w') \<and>
           currentQuiz w' = Some q \<and>
           currentLesson w' = currentLesson w \<and>
           quizStartTime w' = quizStartTime w \<and>
           saved w' = saved w \<and>
           w' = w\<lparr>page := forEach_option_item (\<lambda>index opt. opt\<lparr>has_selected := False\<rparr>)
                             (page w)\<rparr>"
proof -
  let ?qn = "questions q ! currentQuestionIndex q"
  let ?built = "option_elements (parseHTML w) (options ?qn)"
  from assms(1,2) have built: "map element_shape (questionOptions (page w)) =
                                 map element_shape ?built"
    by (simp add: question_shown_def)
  have "data_option_index el \<noteq> Some optionIndex" if "el \<in> set ?built" for el
    using option_elements_cases [OF that]
  proof
    assume "\<exists>i<length (options ?qn). data_option_index el = Some (int i)"
    with assms(3) show ?thesis by (auto simp: valid_option_def)
  next
    assume "\<exists>option\<in>set (options ?qn). el \<in> set (parseHTML w option)"
    with assms(5) show ?thesis by auto
  qed
  then have "\<forall>el\<in>set ?built. data_option_index el \<noteq> Some optionIndex" by simp
  with indices_of_shapes [OF built, of optionIndex]
  have "\<forall>el\<in>set (questionOptions (page w)). data_option_index el \<noteq> Some optionIndex"
    by simp
  with assms(4)
  have "\<forall>el\<in>set (all_elements (page w)). data_option_index el \<noteq> Some optionIndex"
    by (auto simp: all_elements_def)
  then have "select_element optionIndex
               (forEach_option_item (\<lambda>index opt. opt\<lparr>has_selected := False\<rparr>) (page w)) = None"
    by (simp add: select_element_None indices_after_clearing)
  with assms(2) show ?thesis by (simp add: selectOption_def Let_def)
qed

theorem selectOption_out_of_range_witness:
  "question_shown example_selected \<and>
   map_option selectedAnswer (currentQuiz example_selected) = Some (Some 1) \<and>
   \<not> valid_option (example_questions ! 0) 4 \<and>
   (\<exists>w'. selectOption 4 example_selected = Inl (TypeError, w') \<and>
      currentQuiz w' = currentQuiz example_selected)"
proof -
  let ?q = "\<lparr>questions = example_questions, currentQuestionIndex = 0, userAnswers = [],
             score = 0, selectedAnswer = Some 1\<rparr>"
  have h3: "\<not> valid_option (questions ?q ! currentQuestionIndex ?q) 4"
    by (simp add: valid_option_def example_questions_def four_options_def)
  have h4: "\<forall>el\<in>set (elements_before (page example_selected) @
                      elements_after (page example_selected)).
              data_option_index el \<noteq> Some 4"
    by (simp add: example_selected_page)
  have h5: "\<forall>option\<in>set (options (questions ?q ! currentQuestionIndex ?q)).
              \<forall>el\<in>set (parseHTML example_selected option). data_option_index el \<noteq> Some 4"
    by (simp add: example_selected_page example_questions_def four_options_def
        example_parser_def marked_option_def)
  from selectOption_out_of_range [OF example_selected_shown example_selected_quiz h3 h4 h5]
  show ?thesis
    using example_selected_shown example_selected_quiz h3 by auto
qed

subsection \<open>Submitting\<close>

text \<open>
  Against C6 as it is worded: right after the start no option is selected, and
  \<^verbatim>\<open>submitQuizAnswer\<close> returns normally.
\<close>

theorem submit_without_selection_counterexample:
  "map_option selectedAnswer (currentQuiz example_started) = Some None \<and>
   \<not> isl (submitQuizAnswer example_started)"
  by (simp add: example_defs quiz_defs)

text \<open>
  C6, amended. For every session state in which no option is selected,
  \<^verbatim>\<open>submitQuizAnswer\<close> does not fail: it returns at once, raising no \<open>NoSelection\<close>
  error and showing no message, and records no answer.
\<close>

theorem submit_without_selection_returns:
  assumes "currentQuiz w = Some q" and "selectedAnswer q = None"
  shows "\<exists>w'. submitQuizAnswer w = Inr w' \<and>
           toastContainer (page w') = toastContainer (page w) \<and>
           map_option userAnswers (currentQuiz w') = Some (userAnswers q)"
  using assms by (simp add: submitQuizAnswer_def)

theorem submit_without_selection_returns_witness:
  "currentQuiz example_started =
     Some \<lparr>questions = example_questions, currentQuestionIndex = 0, userAnswers = [],
           score = 0, selectedAnswer = None\<rparr> \<and>
   (\<exists>w'. submitQuizAnswer example_started = Inr w' \<and>
      toastContainer (page w') = toastContainer (page example_started) \<and>
      map_option userAnswers (currentQuiz w') = Some [])"
  using submit_without_selection_returns [OF example_started_quiz] example_started_quiz
  by simp

text \<open>
  C10. For every session state in which the selected answer is undefined, the submit
  operation changes nothing: the score, the answer records, the index of the current
  question and the selected answer are as before the call, and so is all the rest of the
  state.
\<close>

theorem submit_without_selection_changes_nothing:
  assumes "currentQuiz w = Some q" and "selectedAnswer q = None"
  shows "submitQuizAnswer w = Inr w"
  using assms by (simp add: submitQuizAnswer_def)

theorem submit_without_selection_changes_nothing_witness:
  "currentQuiz (projr example_revealed) =
     Some \<lparr>questions = example_questions, currentQuestionIndex = 0,
           userAnswers = [Some \<lparr>selected = 1, correct = 1, isCorrect = True\<rparr>],
           score = 1, selectedAnswer = None\<rparr> \<and>
   submitQuizAnswer (projr example_revealed) = Inr (projr example_revealed)"
  using submit_without_selection_changes_nothing [OF example_revealed_quiz] example_revealed_quiz
  by simp

subsection \<open>Advancing\<close>

text \<open>
  Against C7 as it is worded: the first question of the example is answered and
  revealed; the next button's function is then called twice in a row, and the second
  call returns normally too.
\<close>

theorem advance_twice_counterexample:
  "\<not> isl example_revealed \<and>
   \<not> isl (nextQuizQuestion 5000 (projr example_revealed)) \<and>
   \<not> isl (nextQuizQuestion 6000 (projr (nextQuizQuestion 5000 (projr example_revealed))))"
  by (simp add: example_defs quiz_defs)

text \<open>
  C7, amended. Calling \<^verbatim>\<open>nextQuizQuestion\<close> twice in a row, without a submission in
  between, does not fail on the second call: in every session state both calls return
  normally and each moves the index on by one, so an unanswered question is passed over
  (nothing is recorded for it and the score stays). The code has no
  \<open>InvalidTransition\<close> error; what keeps the user from advancing twice is that showing
  a question hides the next button.
\<close>

theorem advance_twice_succeeds:
  assumes "currentQuiz w = Some q"
  shows "\<exists>w1 w2 q2. nextQuizQuestion t1 w = Inr w1 \<and> nextQuizQuestion t2 w1 = Inr w2 \<and>
           currentQuiz w2 = Some q2 \<and>
           currentQuestionIndex q2 = currentQuestionIndex q + 2 \<and>
           userAnswers q2 = userAnswers q \<and> score q2 = score q \<and>
           (currentQuestionIndex q + 1 < length (questions q) \<longrightarrow>
              nextQuestionBtn_hidden (page w1))"
proof -
  have step: "\<exists>w'. nextQuizQuestion t v = Inr w' \<and>
                currentQuiz w' = Some (p\<lparr>currentQuestionIndex := currentQuestionIndex p + 1\<rparr>) \<and>
                (currentQuestionIndex p + 1 < length (questions p) \<longrightarrow>
                   nextQuestionBtn_hidden (page w'))"
    if "currentQuiz v = Some p" for t v p
    using that nextQuizQuestion_more [of v p t] nextQuizQuestion_last [of v p t]
    by (cases "currentQuestionIndex p + 1 < length (questions p)") auto
  from step [OF assms, of t1] obtain w1 where w1: "nextQuizQuestion t1 w = Inr w1"
    "currentQuiz w1 = Some (q\<lparr>currentQuestionIndex := currentQuestionIndex q + 1\<rparr>)"
    "currentQuestionIndex q + 1 < length (questions q) \<longrightarrow> nextQuestionBtn_hidden (page w1)"
    by blast
  from step [OF w1(2), of t2] obtain w2 where w2: "nextQuizQuestion t2 w1 = Inr w2"
    "currentQuiz w2 = Some (q\<lparr>currentQuestionIndex := currentQuestionIndex q + 1,
        currentQuestionIndex := currentQuestionIndex q + 1 + 1\<rparr>)" by auto
  from w1(1,3) w2 show ?thesis by simp
qed

theorem advance_twice_succeeds_witness:
  "currentQuiz (projr example_revealed) =
     Some \<lparr>questions = example_questions, currentQuestionIndex = 0,
           userAnswers = [Some \<lparr>selected = 1, correct = 1, isCorrect = True\<rparr>],
           score = 1, selectedAnswer = None\<rparr> \<and>
   (\<exists>w1 w2 q2. nextQuizQuestion 5000 (projr example_revealed) = Inr w1 \<and>
      nextQuizQuestion 6000 w1 = Inr w2 \<and> currentQuiz w2 = Some q2 \<and>
      currentQuestionIndex q2 = 2 \<and>
      userAnswers q2 = [Some \<lparr>selected = 1, correct = 1, isCorrect = True\<rparr>] \<and>
      score q2 = 1 \<and> nextQuestionBtn_hidden (page w1))"
proof -
  have "(0::nat) + 1 < length example_questions" by (simp add: example_questions_def)
  with advance_twice_succeeds [OF example_revealed_quiz, of 5000 6000] example_revealed_quiz
  show ?thesis by (auto simp: numeral_2_eq_2)
qed

end
